theory Spec2Isabelle
  imports Complex_Main
begin

section \<open>JavaScript strings\<close>

text \<open>
  A JavaScript string is modelled as a \<open>string\<close> (a list of 8-bit code units; code
  units above 255 are outside the model).  \<open>String.prototype.trim\<close> removes the
  ECMAScript white space and line terminators from both ends; in the 8-bit range these
  are TAB, LF, VT, FF, CR, SPACE and NBSP.
\<close>

definition is_ws :: "char \<Rightarrow> bool" where
  "is_ws c = (c \<in> {CHR 0x09, CHR 0x0A, CHR 0x0B, CHR 0x0C, CHR 0x0D, CHR 0x20, CHR 0xA0})"

definition trim :: "string \<Rightarrow> string" where
  "trim s = rev (dropWhile is_ws (rev (dropWhile is_ws s)))"

text \<open>\<open>line.trim()\<close> used as a condition: the empty string is the only falsy string.\<close>

definition truthy :: "string \<Rightarrow> bool" where
  "truthy s = (s \<noteq> [])"

text \<open>
  \<open>s.split(sep)\<close> for a one-character separator.  The result always has at least one
  element: \<open>"".split(",")\<close> is \<open>[""]\<close>.
\<close>

fun js_split :: "char \<Rightarrow> string \<Rightarrow> string list" where
  "js_split sep [] = [[]]"
| "js_split sep (c # cs) =
     (if c = sep then [] # js_split sep cs
      else (case js_split sep cs of
              [] \<Rightarrow> [[c]]
            | w # ws \<Rightarrow> (c # w) # ws))"

abbreviation newline :: char where
  "newline \<equiv> CHR 0x0A"

abbreviation comma :: char where
  "comma \<equiv> CHR '',''"

text \<open>\<open>xs[i]\<close>: \<open>undefined\<close> (here \<open>None\<close>) when the index is out of range.\<close>

fun js_index :: "'a list \<Rightarrow> nat \<Rightarrow> 'a option" where
  "js_index [] i = None"
| "js_index (x # xs) 0 = Some x"
| "js_index (x # xs) (Suc i) = js_index xs i"

section \<open>The tabular decoder (src/http/databento-http.ts, parseCSV)\<close>

text \<open>
  A decoded row is a JavaScript object with string keys and string values, modelled as
  the map of its own properties.  \<open>obj[key] = value\<close> on a plain object creates or
  overwrites the property \<open>key\<close>, with one exception: the name \<open>__proto__\<close> is an
  accessor inherited from \<open>Object.prototype\<close> whose setter ignores a value that is not an
  object, so assigning a string to it creates no property.
\<close>

definition set_property :: "(string \<rightharpoonup> string) \<Rightarrow> string \<Rightarrow> string \<Rightarrow> (string \<rightharpoonup> string)" where
  "set_property obj key v = (if key = ''__proto__'' then obj else obj(key \<mapsto> v))"

text \<open>
  \<open>headers.forEach((header, index) => obj[header.trim()] = values[index]?.trim() || "")\<close>
  assigns the keys from left to right, so a repeated header name keeps the value of its
  last column.
\<close>

definition cell :: "string list \<Rightarrow> nat \<Rightarrow> string" where
  "cell vals index = (case js_index vals index of None \<Rightarrow> [] | Some v \<Rightarrow> trim v)"

definition row_object :: "string list \<Rightarrow> string list \<Rightarrow> (string \<rightharpoonup> string)" where
  "row_object headers vals =
     foldl (\<lambda>obj (header, index). set_property obj (trim header) (cell vals index))
       Map.empty (zip headers [0..<length headers])"

definition parseCSV :: "string \<Rightarrow> (string \<rightharpoonup> string) list" where
  "parseCSV csvText =
     (case js_split newline (trim csvText) of
        [] \<Rightarrow> []
      | first # rest \<Rightarrow>
          (let headers = js_split comma first;
               dataLines = filter (\<lambda>line. truthy (trim line)) rest
           in map (\<lambda>line. row_object headers (js_split comma line)) dataLines))"

section \<open>JavaScript numbers\<close>

text \<open>
  A JavaScript number is \<open>NaN\<close>, an infinity or a finite value.  Finite values are
  modelled as exact reals: the rounding of IEEE doubles (and the sign of zero) is outside
  the model, the special values and their propagation are inside it.
\<close>

datatype jsnum = NaN | NegInf | Num real | PosInf

fun js_neg :: "jsnum \<Rightarrow> jsnum" where
  "js_neg NaN = NaN"
| "js_neg NegInf = PosInf"
| "js_neg PosInf = NegInf"
| "js_neg (Num a) = Num (- a)"

fun js_add :: "jsnum \<Rightarrow> jsnum \<Rightarrow> jsnum" where
  "js_add NaN y = NaN"
| "js_add x NaN = NaN"
| "js_add PosInf NegInf = NaN"
| "js_add NegInf PosInf = NaN"
| "js_add PosInf y = PosInf"
| "js_add x PosInf = PosInf"
| "js_add NegInf y = NegInf"
| "js_add x NegInf = NegInf"
| "js_add (Num a) (Num b) = Num (a + b)"

definition js_sub :: "jsnum \<Rightarrow> jsnum \<Rightarrow> jsnum" where
  "js_sub x y = js_add x (js_neg y)"

text \<open>\<open>x / c\<close> for a positive finite constant \<open>c\<close> (the source divides by 1e9, 1_000_000 and 2).\<close>

fun js_div :: "jsnum \<Rightarrow> real \<Rightarrow> jsnum" where
  "js_div (Num a) c = Num (a / c)"
| "js_div x c = x"

fun math_floor :: "jsnum \<Rightarrow> jsnum" where
  "math_floor (Num a) = Num (of_int \<lfloor>a\<rfloor>)"
| "math_floor x = x"

text \<open>\<open>x <= y\<close> on numbers: false as soon as one side is \<open>NaN\<close>.\<close>

fun js_le :: "jsnum \<Rightarrow> jsnum \<Rightarrow> bool" where
  "js_le NaN y = False"
| "js_le x NaN = False"
| "js_le NegInf y = True"
| "js_le x PosInf = True"
| "js_le x NegInf = False"
| "js_le PosInf y = False"
| "js_le (Num a) (Num b) = (a \<le> b)"

text \<open>
  \<open>Math.max(...xs)\<close> and \<open>Math.min(...xs)\<close>: \<open>NaN\<close> if any argument is \<open>NaN\<close>,
  otherwise the largest (smallest) argument, starting from \<open>-Infinity\<close> (\<open>+Infinity\<close>).
\<close>

definition max2 :: "jsnum \<Rightarrow> jsnum \<Rightarrow> jsnum" where
  "max2 x y = (if x = NaN \<or> y = NaN then NaN else if js_le x y then y else x)"

definition min2 :: "jsnum \<Rightarrow> jsnum \<Rightarrow> jsnum" where
  "min2 x y = (if x = NaN \<or> y = NaN then NaN else if js_le x y then x else y)"

definition math_max :: "jsnum list \<Rightarrow> jsnum" where
  "math_max xs = foldl max2 NegInf xs"

definition math_min :: "jsnum list \<Rightarrow> jsnum" where
  "math_min xs = foldl min2 PosInf xs"

subsection \<open>parseFloat and parseInt\<close>

definition is_digit :: "char \<Rightarrow> bool" where
  "is_digit c = (48 \<le> (of_char c :: nat) \<and> (of_char c :: nat) \<le> 57)"

definition digit_val :: "char \<Rightarrow> int" where
  "digit_val c = of_char c - 48"

definition digits_val :: "string \<Rightarrow> int" where
  "digits_val ds = foldl (\<lambda>acc c. 10 * acc + digit_val c) 0 ds"

definition parse_sign :: "string \<Rightarrow> bool \<times> string" where
  "parse_sign s =
     (case s of
        [] \<Rightarrow> (False, [])
      | c # cs \<Rightarrow> if c = CHR ''-'' then (True, cs)
                 else if c = CHR ''+'' then (False, cs)
                 else (False, s))"

text \<open>The optional exponent part of a decimal literal; \<open>1e\<close> and \<open>1e+\<close> have none.\<close>

definition parse_exponent :: "string \<Rightarrow> int" where
  "parse_exponent s =
     (case s of
        [] \<Rightarrow> 0
      | c # cs \<Rightarrow>
          if c = CHR ''e'' \<or> c = CHR ''E'' then
            (let (neg, r) = parse_sign cs;
                 ds = takeWhile is_digit r
             in if ds = [] then 0
                else if neg then - digits_val ds else digits_val ds)
          else 0)"

definition scale10 :: "real \<Rightarrow> int \<Rightarrow> real" where
  "scale10 m e = (if 0 \<le> e then m * 10 ^ nat e else m / 10 ^ nat (- e))"

text \<open>
  \<open>parseFloat\<close>: skip leading white space, then read the longest prefix that is a
  decimal literal (sign, \<open>Infinity\<close>, or digits with an optional fraction and exponent);
  \<open>NaN\<close> when there is none.  Whatever follows the literal is ignored.
\<close>

definition parseFloat :: "string \<Rightarrow> jsnum" where
  "parseFloat str =
     (let (neg, u) = parse_sign (dropWhile is_ws str)
      in if take 8 u = ''Infinity'' then (if neg then NegInf else PosInf)
         else
           (let ip = takeWhile is_digit u;
                r1 = dropWhile is_digit u;
                (fp, r2) = (case r1 of
                              [] \<Rightarrow> ([], [])
                            | c # cs \<Rightarrow>
                                if c = CHR ''.''
                                then (takeWhile is_digit cs, dropWhile is_digit cs)
                                else ([], r1))
            in if ip = [] \<and> fp = [] then NaN
               else
                 (let m = real_of_int (digits_val (ip @ fp)) / 10 ^ length fp;
                      v = scale10 m (parse_exponent r2)
                  in Num (if neg then - v else v))))"

definition is_hex_digit :: "char \<Rightarrow> bool" where
  "is_hex_digit c =
     (is_digit c \<or> (97 \<le> (of_char c :: nat) \<and> (of_char c :: nat) \<le> 102)
                 \<or> (65 \<le> (of_char c :: nat) \<and> (of_char c :: nat) \<le> 70))"

definition hex_val :: "char \<Rightarrow> int" where
  "hex_val c =
     (if is_digit c then of_char c - 48
      else if 97 \<le> (of_char c :: nat) then of_char c - 87
      else of_char c - 55)"

text \<open>
  \<open>parseInt\<close> without a radix: leading white space, a sign, radix 16 after \<open>0x\<close> or
  \<open>0X\<close> and radix 10 otherwise, then the longest run of digits; \<open>NaN\<close> when it is empty.
\<close>

definition parseInt :: "string \<Rightarrow> jsnum" where
  "parseInt str =
     (let (neg, u) = parse_sign (dropWhile is_ws str)
      in if take 2 u = ''0x'' \<or> take 2 u = ''0X'' then
           (let z = takeWhile is_hex_digit (drop 2 u);
                n = foldl (\<lambda>acc c. 16 * acc + hex_val c) 0 z
            in if z = [] then NaN else Num (if neg then - real_of_int n else real_of_int n))
         else
           (let z = takeWhile is_digit u
            in if z = [] then NaN
               else Num (if neg then - real_of_int (digits_val z)
                         else real_of_int (digits_val z))))"

text \<open>
  \<open>String(x)\<close> of an array element that may be missing: \<open>parseFloat(fields[13])\<close> on a
  short row converts \<open>undefined\<close> to the string \<open>"undefined"\<close>, which parses to \<open>NaN\<close>.
\<close>

definition to_string :: "string option \<Rightarrow> string" where
  "to_string v = (case v of None \<Rightarrow> ''undefined'' | Some s \<Rightarrow> s)"

text \<open>Decimal rendering of a natural number, as a template literal prints it.\<close>

fun show_nat :: "nat \<Rightarrow> string" where
  "show_nat n =
     (if n < 10 then [char_of (48 + n)]
      else show_nat (n div 10) @ [char_of (48 + n mod 10)])"

text \<open>Decimal rendering of an integer, the form in which a scaled price arrives.\<close>

definition show_int :: "int \<Rightarrow> string" where
  "show_int i = (if i < 0 then CHR ''-'' # show_nat (nat (- i)) else show_nat (nat i))"

section \<open>JavaScript dates\<close>

text \<open>
  A \<open>Date\<close> holds a time value: an integral number of milliseconds since the epoch of
  absolute value at most 8.64e15, or \<open>NaN\<close> (an invalid date, as \<open>new Date("garbage")\<close>
  is).  Every operation that computes a time value clips it (ECMAScript \<open>TimeClip\<close>): a
  result outside the range is the invalid date.
\<close>

datatype date = InvalidDate | DateAt int

definition maxTime :: int where
  "maxTime = 8640000000000000"

definition msPerHour :: int where
  "msPerHour = 3600000"

definition msPerDay :: int where
  "msPerDay = 86400000"

definition time_clip :: "int \<Rightarrow> date" where
  "time_clip t = (if \<bar>t\<bar> > maxTime then InvalidDate else DateAt t)"

text \<open>\<open>new Date(x)\<close> for a number \<open>x\<close>: the integral part of a finite value, clipped.\<close>

fun new_Date :: "jsnum \<Rightarrow> date" where
  "new_Date (Num a) = time_clip (if 0 \<le> a then \<lfloor>a\<rfloor> else \<lceil>a\<rceil>)"
| "new_Date x = InvalidDate"

fun getTime :: "date \<Rightarrow> jsnum" where
  "getTime InvalidDate = NaN"
| "getTime (DateAt t) = Num (of_int t)"

text \<open>\<open>getUTCHours()\<close>: the hour of the UTC day, \<open>NaN\<close> (here \<open>None\<close>) for an invalid date.\<close>

fun getUTCHours :: "date \<Rightarrow> int option" where
  "getUTCHours InvalidDate = None"
| "getUTCHours (DateAt t) = Some ((t div msPerHour) mod 24)"

text \<open>
  \<open>d.setUTCHours(h, 0, 0, 0)\<close>: the same UTC day at \<open>h\<close>:00:00.000, clipped; an invalid
  date stays invalid.
\<close>

fun setUTCHours :: "date \<Rightarrow> int \<Rightarrow> date" where
  "setUTCHours InvalidDate h = InvalidDate"
| "setUTCHours (DateAt t) h = time_clip ((t div msPerDay) * msPerDay + h * msPerHour)"

text \<open>
  Comparing two dates (\<open>a <= b\<close>, \<open>a < b\<close> on \<open>Date\<close> objects) compares their time
  values and is false when one of them is invalid; \<open>utc_day\<close> is the number of the UTC
  calendar day a date falls on.
\<close>

fun date_le :: "date \<Rightarrow> date \<Rightarrow> bool" where
  "date_le (DateAt a) (DateAt b) = (a \<le> b)"
| "date_le x y = False"

fun date_lt :: "date \<Rightarrow> date \<Rightarrow> bool" where
  "date_lt (DateAt a) (DateAt b) = (a < b)"
| "date_lt x y = False"

fun utc_day :: "date \<Rightarrow> int option" where
  "utc_day InvalidDate = None"
| "utc_day (DateAt t) = Some (t div msPerDay)"

section \<open>Data model of the client (DataBentoClient)\<close>

record QuoteData =
  symbol :: string
  price :: jsnum
  bid :: jsnum
  ask :: jsnum
  timestamp :: date
  dataAge :: jsnum

record BarData =
  bar_timestamp :: date
  bar_open :: jsnum
  bar_high :: jsnum
  bar_low :: jsnum
  bar_close :: jsnum
  bar_volume :: jsnum

datatype session = Asian | London | NY | Unknown

record SessionInfo =
  currentSession :: session
  sessionStart :: date
  sessionEnd :: date
  session_timestamp :: date

text \<open>An entry of \<open>priceCache\<close>: \<open>{ data: QuoteData; timestamp: number }\<close>.\<close>

record cache_entry =
  data :: QuoteData
  cached_timestamp :: int

datatype timeframe = TF_1h | TF_H4 | TF_1d

text \<open>A thrown JavaScript error, with its message.\<close>

datatype error = Error string

text \<open>DATABENTO_CONFIG, SYMBOL_MAP and CACHE_TTL.\<close>

definition retryAttempts :: nat where
  "retryAttempts = 3"

definition retryDelayMs :: int where
  "retryDelayMs = 1000"

definition CACHE_TTL :: int where
  "CACHE_TTL = 30000"

text \<open>
  The symbol parameter has type \<open>"ES" | "NQ"\<close>; any other string fails the lookup, as
  the source's test with \<open>'INVALID'\<close> expects (the names every JavaScript object
  inherits are outside the model).
\<close>

definition SYMBOL_MAP :: "string \<rightharpoonup> string" where
  "SYMBOL_MAP = [''ES'' \<mapsto> ''ES.c.0'', ''NQ'' \<mapsto> ''NQ.c.0'']"

section \<open>The environment: clock, network and timers\<close>

text \<open>
  What one \<open>fetch\<close> attempt can do: throw (a network error, or the abort of
  \<open>AbortSignal.timeout\<close>; the string is how the thrown value prints), or deliver a
  response with a status, a status text and a body whose reading yields the text or
  throws in turn.
\<close>

datatype fetch_outcome =
    FetchThrows string
  | FetchResponse nat string "string + string"

text \<open>
  What the transport does to the outside, in the order in which it does it: a call of
  \<open>fetch\<close>, or a wait of so many milliseconds through \<open>setTimeout\<close>.
\<close>

datatype event = Fetched | Slept int

text \<open>
  The state threads the cache of the client together with the environment: the successive
  readings of the clock (\<open>Date.now()\<close>, \<open>new Date()\<close>) and the successive outcomes of
  \<open>fetch\<close>, both arbitrary, with the number of readings and of calls made so far, and the
  log of the calls and waits, in order.
\<close>

record state =
  priceCache :: "string \<rightharpoonup> cache_entry"
  clock :: "nat \<Rightarrow> int"
  clock_reads :: nat
  network :: "nat \<Rightarrow> fetch_outcome"
  fetches :: nat
  events :: "event list"

definition Date_now :: "state \<Rightarrow> int \<times> state" where
  "Date_now s = (clock s (clock_reads s), s\<lparr>clock_reads := Suc (clock_reads s)\<rparr>)"

definition fetch :: "state \<Rightarrow> fetch_outcome \<times> state" where
  "fetch s = (network s (fetches s),
              s\<lparr>fetches := Suc (fetches s), events := events s @ [Fetched]\<rparr>)"

definition sleep :: "int \<Rightarrow> state \<Rightarrow> state" where
  "sleep ms s = s\<lparr>events := events s @ [Slept ms]\<rparr>"

section \<open>The transport (makeRequest)\<close>

text \<open>
  The retry loop is the same, statement for statement, in
  \<open>DataBentoHTTP.makeRequest\<close> (src/http/databento-http.ts) and in
  \<open>DataBentoClient.makeRequest\<close>.  The body of the \<open>try\<close> block either returns the text of
  the response (\<open>Inr\<close>) or throws; \<open>Inl\<close> carries the thrown value as \<open>${error}\<close> prints it.
\<close>

definition response_ok :: "nat \<Rightarrow> bool" where
  "response_ok status = (200 \<le> status \<and> status \<le> 299)"

definition attempt_result :: "fetch_outcome \<Rightarrow> string + string" where
  "attempt_result out =
     (case out of
        FetchThrows e \<Rightarrow> Inl e
      | FetchResponse status statusText body \<Rightarrow>
          if \<not> response_ok status then
            (case body of
               Inl e \<Rightarrow> Inl e
             | Inr errorText \<Rightarrow>
                 Inl (''Error: HTTP '' @ show_nat status @ '': '' @ statusText
                        @ '' - '' @ errorText))
          else body)"

function request_loop :: "nat \<Rightarrow> state \<Rightarrow> (error + string) \<times> state" where
  "request_loop attempt s =
     (if attempt \<le> retryAttempts then
        (case fetch s of
           (out, s1) \<Rightarrow>
             (case attempt_result out of
                Inr text \<Rightarrow> (Inr text, s1)
              | Inl err \<Rightarrow>
                  if attempt = retryAttempts then
                    (Inl (Error (''DataBento API request failed after ''
                                   @ show_nat retryAttempts @ '' attempts: '' @ err)), s1)
                  else request_loop (attempt + 1) (sleep (retryDelayMs * int attempt) s1)))
      else (Inl (Error ''Unexpected error in DataBento request''), s))"
  by pat_completeness auto
termination
  by (relation "measure (\<lambda>(attempt, s). retryAttempts + 1 - attempt)") auto

definition makeRequest :: "state \<Rightarrow> (error + string) \<times> state" where
  "makeRequest s = request_loop 1 s"

section \<open>The quote cache (getQuote)\<close>

text \<open>
  The request parameters (dataset, symbol, the seven-day window printed from
  \<open>new Date()\<close>) do not influence what the function does with the response and are not
  modelled; \<open>new Date()\<close> still reads the clock.
\<close>

text \<open>
  The cache check at the head of \<open>getQuote\<close>:
  \<open>cached && Date.now() - cached.timestamp < this.CACHE_TTL\<close>.  The clock is read only
  when there is an entry.
\<close>

definition cache_lookup :: "string \<Rightarrow> state \<Rightarrow> QuoteData option \<times> state" where
  "cache_lookup cacheKey s =
     (case priceCache s cacheKey of
        None \<Rightarrow> (None, s)
      | Some cached \<Rightarrow>
          (case Date_now s of
             (now, s') \<Rightarrow>
               if now - cached_timestamp cached < CACHE_TTL
               then (Some (data cached), s') else (None, s')))"

text \<open>\<open>response.split("\n").slice(1).filter((line) => line.trim())\<close>, in both pipelines.\<close>

definition data_lines :: "string \<Rightarrow> string list" where
  "data_lines response =
     (let lines = js_split newline response
      in filter (\<lambda>line. truthy (trim line)) (drop 1 lines))"

text \<open>
  The quote built from the latest line; \<open>now\<close> is the reading of \<open>Date.now()\<close> taken
  for \<open>dataAge\<close>.  The bid and the ask are read by position (columns 13 and 14 of the
  mbp-1 layout), the event time from column 1.
\<close>

definition parse_quote :: "string \<Rightarrow> string \<Rightarrow> int \<Rightarrow> QuoteData" where
  "parse_quote symb latestLine now =
     (let fields = js_split comma latestLine;
          bidPx = js_div (parseFloat (to_string (js_index fields 13))) 1000000000;
          askPx = js_div (parseFloat (to_string (js_index fields 14))) 1000000000;
          tsEvent = parseInt (to_string (js_index fields 1));
          price' = js_div (js_add bidPx askPx) 2;
          timestamp' = new_Date (math_floor (js_div tsEvent 1000000));
          dataAge' = js_sub (Num (of_int now)) (getTime timestamp')
      in \<lparr>symbol = symb, price = price', bid = bidPx, ask = askPx,
          timestamp = timestamp', dataAge = dataAge'\<rparr>)"

definition getQuote :: "string \<Rightarrow> state \<Rightarrow> (error + QuoteData) \<times> state" where
  "getQuote symb s =
     (case cache_lookup symb s of
        (Some q, s0) \<Rightarrow> (Inr q, s0)
      | (None, s0) \<Rightarrow>
         (case SYMBOL_MAP symb of
            None \<Rightarrow> (Inl (Error (''Invalid symbol: '' @ symb)), s0)
          | Some databentoSymbol \<Rightarrow>
             (case Date_now s0 of
                (today, s1) \<Rightarrow>
                 (case makeRequest s1 of
                    (Inl e, s2) \<Rightarrow> (Inl e, s2)
                  | (Inr response, s2) \<Rightarrow>
                     if response = [] then
                       (Inl (Error (''No quote data available for '' @ symb)), s2)
                     else
                       (let dataLines = data_lines response
                        in if length dataLines = 0 then
                             (Inl (Error (''No recent data available for '' @ symb)), s2)
                           else
                             (let latestLine = dataLines ! (length dataLines - 1)
                              in case Date_now s2 of
                                   (now1, s3) \<Rightarrow>
                                    (let quoteData = parse_quote symb latestLine now1
                                     in case Date_now s3 of
                                          (now2, s4) \<Rightarrow>
                                            (Inr quoteData,
                                             s4\<lparr>priceCache := (priceCache s4)
                                                  (symb \<mapsto> \<lparr>data = quoteData,
                                                            cached_timestamp = now2\<rparr>)\<rparr>))))))))"

section \<open>The bar pipeline (getHistoricalBars, aggregateToH4)\<close>

text \<open>\<open>xs.slice(k)\<close>: a negative \<open>k\<close> counts from the end, and \<open>slice(-0)\<close> is \<open>slice(0)\<close>.\<close>

definition js_slice_from :: "int \<Rightarrow> 'a list \<Rightarrow> 'a list" where
  "js_slice_from k xs =
     (let len = int (length xs);
          start = (if k < 0 then max (len + k) 0 else min k len)
      in drop (nat start) xs)"

definition aggregate_chunk :: "BarData list \<Rightarrow> BarData" where
  "aggregate_chunk chunk =
     \<lparr>bar_timestamp = bar_timestamp (chunk ! 0),
      bar_open = bar_open (chunk ! 0),
      bar_high = math_max (map bar_high chunk),
      bar_low = math_min (map bar_low chunk),
      bar_close = bar_close (chunk ! (length chunk - 1)),
      bar_volume = foldl (\<lambda>sum b. js_add sum (bar_volume b)) (Num 0) chunk\<rparr>"

text \<open>The \<open>for (let i = 0; i < bars.length; i += 4)\<close> loop, from index \<open>i\<close> on.\<close>

function aggregate_loop :: "nat \<Rightarrow> BarData list \<Rightarrow> BarData list \<Rightarrow> BarData list" where
  "aggregate_loop i bars h4Bars =
     (if i < length bars then
        (let chunk = take 4 (drop i bars)
         in if length chunk = 0 then aggregate_loop (i + 4) bars h4Bars
            else aggregate_loop (i + 4) bars (h4Bars @ [aggregate_chunk chunk]))
      else h4Bars)"
  by pat_completeness auto
termination
  by (relation "measure (\<lambda>(i, bars, h4Bars). length bars - i)") auto

definition aggregateToH4 :: "BarData list \<Rightarrow> BarData list" where
  "aggregateToH4 bars = aggregate_loop 0 bars []"

text \<open>One data line of an OHLCV response: \<open>ts_event,rtype,publisher_id,instrument_id,open,high,low,close,volume\<close>.\<close>

definition parse_bar :: "string \<Rightarrow> BarData" where
  "parse_bar line =
     (let fields = js_split comma line;
          tsEvent = parseInt (to_string (js_index fields 0))
      in \<lparr>bar_timestamp = new_Date (math_floor (js_div tsEvent 1000000)),
          bar_open = js_div (parseFloat (to_string (js_index fields 4))) 1000000000,
          bar_high = js_div (parseFloat (to_string (js_index fields 5))) 1000000000,
          bar_low = js_div (parseFloat (to_string (js_index fields 6))) 1000000000,
          bar_close = js_div (parseFloat (to_string (js_index fields 7))) 1000000000,
          bar_volume = parseFloat (to_string (js_index fields 8))\<rparr>)"

text \<open>
  The request parameters (dataset, symbol, schema, and the window, printed from the two
  \<open>new Date()\<close> with the start moved back by a number of days that depends on \<open>count\<close>
  and the timeframe) do not influence what the function does with the response; the two
  readings of the clock are kept.  The count is taken in the range in which the start of
  that window is a valid date (the tool schema allows 1 to 100); beyond it
  \<open>toISOString\<close> would throw before the request.
\<close>

definition getHistoricalBars ::
  "string \<Rightarrow> timeframe \<Rightarrow> int \<Rightarrow> state \<Rightarrow> (error + BarData list) \<times> state" where
  "getHistoricalBars symb tf count s =
     (case SYMBOL_MAP symb of
        None \<Rightarrow> (Inl (Error (''Invalid symbol: '' @ symb)), s)
      | Some databentoSymbol \<Rightarrow>
         (case Date_now s of
            (endNow, s1) \<Rightarrow>
             (case Date_now s1 of
                (startNow, s2) \<Rightarrow>
                   (case makeRequest s2 of
                      (Inl e, s3) \<Rightarrow> (Inl e, s3)
                    | (Inr response, s3) \<Rightarrow>
                       if response = [] then
                         (Inl (Error (''No bar data available for '' @ symb)), s3)
                       else
                         (let dataLines = data_lines response
                          in if length dataLines = 0 then
                               (Inl (Error (''No bar data available for '' @ symb)), s3)
                             else
                               (let bars = map parse_bar dataLines
                                in if tf = TF_H4 then (Inr (aggregateToH4 bars), s3)
                                   else (Inr (js_slice_from (- count) bars), s3)))))))"

section \<open>The session classifier (getSessionInfo)\<close>

text \<open>
  \<open>utcHour >= lo && utcHour < hi\<close>; both comparisons are false when \<open>utcHour\<close> is \<open>NaN\<close>.
\<close>

definition hour_in :: "int option \<Rightarrow> int \<Rightarrow> int \<Rightarrow> bool" where
  "hour_in utcHour lo hi = (case utcHour of None \<Rightarrow> False | Some h \<Rightarrow> lo \<le> h \<and> h < hi)"

text \<open>
  The optional argument is a \<open>Date\<close>, possibly an invalid one; when it is omitted the
  function takes \<open>new Date()\<close>, whose time value is the second argument here.
\<close>

definition getSessionInfo :: "date option \<Rightarrow> int \<Rightarrow> SessionInfo" where
  "getSessionInfo ts current =
     (let now = (case ts of Some d \<Rightarrow> d | None \<Rightarrow> DateAt current);
          utcHour = getUTCHours now
      in if hour_in utcHour 0 7 then
           \<lparr>currentSession = Asian, sessionStart = setUTCHours now 0,
            sessionEnd = setUTCHours now 7, session_timestamp = now\<rparr>
         else if hour_in utcHour 7 14 then
           \<lparr>currentSession = London, sessionStart = setUTCHours now 7,
            sessionEnd = setUTCHours now 14, session_timestamp = now\<rparr>
         else if hour_in utcHour 14 22 then
           \<lparr>currentSession = NY, sessionStart = setUTCHours now 14,
            sessionEnd = setUTCHours now 22, session_timestamp = now\<rparr>
         else
           \<lparr>currentSession = Unknown, sessionStart = now,
            sessionEnd = now, session_timestamp = now\<rparr>)"

section \<open>Example environments\<close>

text \<open>
  A server that answers 503 twice and then 200, and a network that is down: every
  \<open>fetch\<close> throws.
\<close>

definition flaky :: state where
  "flaky = \<lparr>priceCache = Map.empty, clock = (\<lambda>n. 0), clock_reads = 0,
            network = (\<lambda>n. if n < 2 then FetchResponse 503 ''Service Unavailable'' (Inr ''busy'')
                            else FetchResponse 200 ''OK'' (Inr ''a,b'')),
            fetches = 0, events = []\<rparr>"

definition offline :: state where
  "offline = \<lparr>priceCache = Map.empty, clock = (\<lambda>n. 0), clock_reads = 0,
            network = (\<lambda>n. FetchThrows ''TypeError: fetch failed''),
            fetches = 0, events = []\<rparr>"

text \<open>A server that rejects the API key on every attempt.\<close>

definition unauthorized :: state where
  "unauthorized = \<lparr>priceCache = Map.empty, clock = (\<lambda>n. 0), clock_reads = 0,
            network = (\<lambda>n. FetchResponse 401 ''Unauthorized'' (Inr ''Invalid API key'')),
            fetches = 0, events = []\<rparr>"

text \<open>Five hourly bars: one full group of four and a trailing group of one.\<close>

definition hour_bar :: "real \<Rightarrow> real \<Rightarrow> real \<Rightarrow> real \<Rightarrow> real \<Rightarrow> BarData" where
  "hour_bar opn hi lo cls vol =
     \<lparr>bar_timestamp = DateAt 0, bar_open = Num opn, bar_high = Num hi,
      bar_low = Num lo, bar_close = Num cls, bar_volume = Num vol\<rparr>"

definition five_hours :: "BarData list" where
  "five_hours = [hour_bar 4500 4510 4490 4505 1000, hour_bar 4505 4515 4495 4510 1100,
                 hour_bar 4510 4525 4500 4515 1200, hour_bar 4515 4530 4505 4520 1300,
                 hour_bar 4520 4540 4510 4525 1400]"

text \<open>
  A table with padded header names, a row with a value too many, a blank line and a row
  with a value too few.
\<close>

definition sample_csv :: string where
  "sample_csv = ''symbol , price'' @ [newline] @ ''ES, 4500 ,extra'' @ [newline] @ ''   ''
                  @ [newline] @ ''NQ'' @ [newline]"

text \<open>A table whose first header is named \<open>__proto__\<close>.\<close>

definition proto_csv :: string where
  "proto_csv = ''__proto__,symbol'' @ [newline] @ ''1,ES''"

text \<open>
  A top-of-book response in the mbp-1 layout with one data line, the quote it decodes to
  when read at 1609502410000 ms, a server that always answers with it (the clock stands
  still during the first call and is 20 s later afterwards), and a client holding that
  quote in its cache with the network down, 30000 ms and 29999 ms after it was stored.
\<close>

definition quote_csv :: string where
  "quote_csv =
     ''ts_recv,ts_event,rtype,publisher_id,instrument_id,action,side,depth,price,size,flags,ts_in_delta,sequence,bid_px_00,ask_px_00,bid_sz_00,ask_sz_00''
     @ [newline] @
     ''1609502400000123456,1609502400000000000,1,1,1234,A,B,0,0,0,0,0,0,4500000000000,4502000000000,10,15''
     @ [newline]"

definition es_quote :: QuoteData where
  "es_quote = \<lparr>symbol = ''ES'', price = Num 4501, bid = Num 4500, ask = Num 4502,
               timestamp = DateAt 1609502400000, dataAge = Num 10000\<rparr>"

definition quote_server :: state where
  "quote_server =
     \<lparr>priceCache = Map.empty,
      clock = (\<lambda>n. if n < 3 then 1609502410000 else 1609502430000), clock_reads = 0,
      network = (\<lambda>n. FetchResponse 200 ''OK'' (Inr quote_csv)), fetches = 0, events = []\<rparr>"

definition stale_offline :: state where
  "stale_offline =
     \<lparr>priceCache = [''ES'' \<mapsto> \<lparr>data = es_quote, cached_timestamp = 1609502410000\<rparr>],
      clock = (\<lambda>n. 1609502440000), clock_reads = 0,
      network = (\<lambda>n. FetchThrows ''TypeError: fetch failed''), fetches = 0, events = []\<rparr>"

definition fresh_offline :: state where
  "fresh_offline =
     \<lparr>priceCache = [''ES'' \<mapsto> \<lparr>data = es_quote, cached_timestamp = 1609502410000\<rparr>],
      clock = (\<lambda>n. 1609502439999), clock_reads = 0,
      network = (\<lambda>n. FetchThrows ''TypeError: fetch failed''), fetches = 0, events = []\<rparr>"

text \<open>
  A client whose entry is 40 s old in front of the example server, and a server whose
  response has a header line and no data line.
\<close>

definition stale_online :: state where
  "stale_online =
     \<lparr>priceCache = [''ES'' \<mapsto> \<lparr>data = es_quote, cached_timestamp = 1609502370000\<rparr>],
      clock = (\<lambda>n. 1609502410000), clock_reads = 0,
      network = (\<lambda>n. FetchResponse 200 ''OK'' (Inr quote_csv)), fetches = 0, events = []\<rparr>"

definition header_only_server :: state where
  "header_only_server =
     \<lparr>priceCache = Map.empty, clock = (\<lambda>n. 1609502410000), clock_reads = 0,
      network = (\<lambda>n. FetchResponse 200 ''OK''
                   (Inr (''ts_recv,ts_event,rtype,publisher_id,instrument_id'' @ [newline]))),
      fetches = 0, events = []\<rparr>"

text \<open>Twelve hourly bars as an OHLCV response, and a server that answers with them.\<close>

definition hourly_rows :: "string list" where
  "hourly_rows =
    [''1609459200000000000,1,1,1234,4500000000,4510000000,4490000000,4505000000,1000'',
     ''1609462800000000000,1,1,1234,4505000000,4515000000,4495000000,4510000000,1100'',
     ''1609466400000000000,1,1,1234,4510000000,4525000000,4500000000,4515000000,1200'',
     ''1609470000000000000,1,1,1234,4515000000,4530000000,4505000000,4520000000,1300'',
     ''1609473600000000000,1,1,1234,4520000000,4540000000,4510000000,4525000000,1400'',
     ''1609477200000000000,1,1,1234,4525000000,4550000000,4515000000,4530000000,1500'',
     ''1609480800000000000,1,1,1234,4530000000,4560000000,4520000000,4535000000,1600'',
     ''1609484400000000000,1,1,1234,4535000000,4570000000,4525000000,4540000000,1700'',
     ''1609488000000000000,1,1,1234,4540000000,4580000000,4530000000,4545000000,1800'',
     ''1609491600000000000,1,1,1234,4545000000,4590000000,4535000000,4550000000,1900'',
     ''1609495200000000000,1,1,1234,4550000000,4600000000,4540000000,4555000000,2000'',
     ''1609498800000000000,1,1,1234,4555000000,4610000000,4545000000,4560000000,2100'']"

definition hourly_csv :: string where
  "hourly_csv =
     ''ts_event,rtype,publisher_id,instrument_id,open,high,low,close,volume''
       @ concat (map (\<lambda>row. newline # row) hourly_rows)"

definition hourly_server :: state where
  "hourly_server =
     \<lparr>priceCache = Map.empty, clock = (\<lambda>n. 1609502410000), clock_reads = 0,
      network = (\<lambda>n. FetchResponse 200 ''OK'' (Inr hourly_csv)), fetches = 0, events = []\<rparr>"

section \<open>Simplifier setup\<close>

text \<open>The loop equations are unfolded by hand, one iteration at a time.\<close>

declare request_loop.simps [simp del]
declare aggregate_loop.simps [simp del]
declare show_nat.simps [simp del]

section \<open>Basic facts about the string functions\<close>

lemma js_split_nonempty: "js_split sep s \<noteq> []"
  by (induction s) (auto split: list.splits)

section \<open>The tabular decoder: facts\<close>

lemma js_index_eq: "js_index xs i = (if i < length xs then Some (xs ! i) else None)"
  by (induction xs i rule: js_index.induct) simp_all

lemma cell_eq: "cell vals i = (if i < length vals then trim (vals ! i) else [])"
  by (simp add: cell_def js_index_eq)

lemma cell_take: "i < n \<Longrightarrow> cell (take n vals) i = cell vals i"
  by (simp add: cell_eq)

lemma foldl_zip_upt_step:
  "foldl f m (zip (h # hs) [n..<n + length (h # hs)]) =
   foldl f (f m (h, n)) (zip hs [Suc n..<Suc n + length hs])"
  by (simp add: upt_conv_Cons del: upt_Suc)

lemma set_property_dom:
  "dom (set_property obj key v) = (if key = ''__proto__'' then dom obj else insert key (dom obj))"
  by (simp add: set_property_def)

lemma assign_dom:
  fixes vals :: "string list"
  defines "F \<equiv> \<lambda>obj (header, index). set_property obj (trim header) (cell vals index)"
  shows "dom (foldl F m (zip hs [n..<n + length hs])) =
           dom m \<union> (trim ` set hs - {''__proto__''})"
proof (induction hs arbitrary: m n)
  case Nil
  then show ?case by simp
next
  case (Cons h hs)
  have "dom (foldl F m (zip (h # hs) [n..<n + length (h # hs)])) =
        dom (F m (h, n)) \<union> (trim ` set hs - {''__proto__''})"
    by (simp only: foldl_zip_upt_step Cons.IH)
  also have "\<dots> = dom m \<union> (trim ` set (h # hs) - {''__proto__''})"
    by (auto simp: F_def set_property_dom)
  finally show ?case .
qed

lemma assign_other:
  fixes vals :: "string list"
  defines "F \<equiv> \<lambda>obj (header, index). set_property obj (trim header) (cell vals index)"
  assumes "key \<notin> trim ` set hs \<or> key = ''__proto__''"
  shows "foldl F m (zip hs [n..<n + length hs]) key = m key"
  using assms(2)
proof (induction hs arbitrary: m n)
  case Nil
  then show ?case by simp
next
  case (Cons h hs)
  then have k: "key \<notin> trim ` set hs \<or> key = ''__proto__''"
    "key \<noteq> trim h \<or> key = ''__proto__''" by auto
  have "foldl F m (zip (h # hs) [n..<n + length (h # hs)]) key = F m (h, n) key"
    by (simp only: foldl_zip_upt_step Cons.IH [OF k(1)])
  also have "\<dots> = m key"
    using k(2) by (auto simp: F_def set_property_def)
  finally show ?case .
qed

lemma assign_last:
  fixes vals :: "string list"
  defines "F \<equiv> \<lambda>obj (header, index). set_property obj (trim header) (cell vals index)"
  assumes "i < length hs"
    and "trim (hs ! i) \<noteq> ''__proto__''"
    and "\<forall>j. i < j \<and> j < length hs \<longrightarrow> trim (hs ! j) \<noteq> trim (hs ! i)"
  shows "foldl F m (zip hs [n..<n + length hs]) (trim (hs ! i)) = Some (cell vals (n + i))"
  using assms(2,3,4)
proof (induction hs arbitrary: m n i)
  case Nil
  then show ?case by simp
next
  case (Cons h hs)
  show ?case
  proof (cases i)
    case 0
    have "trim h \<notin> trim ` set hs"
    proof
      assume "trim h \<in> trim ` set hs"
      then obtain j where "j < length hs" "trim (hs ! j) = trim h"
        by (auto simp: in_set_conv_nth)
      with Cons.prems(3) [rule_format, of "Suc j"] 0 show False by simp
    qed
    then have "trim h \<notin> trim ` set hs \<or> trim h = ''__proto__''" by simp
    then have "foldl F (F m (h, n)) (zip hs [Suc n..<Suc n + length hs]) (trim h) =
               F m (h, n) (trim h)"
      unfolding F_def by (rule assign_other)
    also have "\<dots> = Some (cell vals n)"
      using Cons.prems(2) 0 by (simp add: F_def set_property_def)
    finally show ?thesis
      using 0 by (simp only: foldl_zip_upt_step) simp
  next
    case (Suc i')
    have a: "i' < length hs" using Cons.prems(1) Suc by simp
    have p: "trim (hs ! i') \<noteq> ''__proto__''" using Cons.prems(2) Suc by simp
    have b: "\<forall>j. i' < j \<and> j < length hs \<longrightarrow> trim (hs ! j) \<noteq> trim (hs ! i')"
    proof (intro allI impI)
      fix j assume "i' < j \<and> j < length hs"
      with Cons.prems(3) [rule_format, of "Suc j"] Suc
      show "trim (hs ! j) \<noteq> trim (hs ! i')" by simp
    qed
    have "foldl F (F m (h, n)) (zip hs [Suc n..<Suc n + length hs]) (trim (hs ! i')) =
          Some (cell vals (Suc n + i'))"
      by (rule Cons.IH [OF a p b])
    then show ?thesis
      using Suc by (simp only: foldl_zip_upt_step) simp
  qed
qed

lemma assign_cong:
  fixes v1 v2 :: "string list"
  defines "F1 \<equiv> \<lambda>obj (header, index). set_property obj (trim header) (cell v1 index)"
    and "F2 \<equiv> \<lambda>obj (header, index). set_property obj (trim header) (cell v2 index)"
  assumes "\<forall>i<length hs. cell v1 (n + i) = cell v2 (n + i)"
  shows "foldl F1 m (zip hs [n..<n + length hs]) = foldl F2 m (zip hs [n..<n + length hs])"
  using assms(3)
proof (induction hs arbitrary: m n)
  case Nil
  then show ?case by simp
next
  case (Cons h hs)
  have 0: "F1 m (h, n) = F2 m (h, n)"
    using Cons.prems [rule_format, of 0] by (simp add: F1_def F2_def)
  have "\<forall>i<length hs. cell v1 (Suc n + i) = cell v2 (Suc n + i)"
  proof (intro allI impI)
    fix i assume "i < length hs"
    with Cons.prems [rule_format, of "Suc i"] show "cell v1 (Suc n + i) = cell v2 (Suc n + i)"
      by simp
  qed
  from Cons.IH [OF this, of "F2 m (h, n)"] 0
  show ?case by (simp only: foldl_zip_upt_step)
qed

lemma row_object_dom:
  "dom (row_object headers vals) = trim ` set headers - {''__proto__''}"
  using assign_dom [of vals Map.empty headers 0] by (simp add: row_object_def)

lemma row_object_lookup:
  "i < length headers \<Longrightarrow> trim (headers ! i) \<noteq> ''__proto__'' \<Longrightarrow>
   \<forall>j. i < j \<and> j < length headers \<longrightarrow> trim (headers ! j) \<noteq> trim (headers ! i) \<Longrightarrow>
   row_object headers vals (trim (headers ! i)) =
     Some (if i < length vals then trim (vals ! i) else [])"
  using assign_last [of i headers vals Map.empty 0] by (simp add: row_object_def cell_eq)

lemma row_object_take:
  "row_object headers (take (length headers) vals) = row_object headers vals"
  using assign_cong [of headers "take (length headers) vals" 0 vals Map.empty]
  by (simp add: row_object_def cell_take)

lemma js_split_no_sep: "sep \<notin> set s \<Longrightarrow> js_split sep s = [s]"
  by (induction s) auto

lemma parseCSV_eq:
  "parseCSV csvText =
     map (\<lambda>line. row_object (js_split comma (hd (js_split newline (trim csvText))))
                    (js_split comma line))
       (filter (\<lambda>line. trim line \<noteq> []) (tl (js_split newline (trim csvText))))"
  using js_split_nonempty [of newline "trim csvText"]
  by (cases "js_split newline (trim csvText)") (simp_all add: parseCSV_def truthy_def)


text \<open>\<open>trim\<close> removes a run of white space at the front and one at the back, nothing else.\<close>

lemma trim_decomp:
  "s = takeWhile is_ws s @ trim s @ rev (takeWhile is_ws (rev (dropWhile is_ws s)))"
proof -
  let ?u = "dropWhile is_ws s"
  have "rev (takeWhile is_ws (rev ?u) @ dropWhile is_ws (rev ?u)) = ?u"
    by (simp only: takeWhile_dropWhile_id rev_rev_ident)
  then have "trim s @ rev (takeWhile is_ws (rev ?u)) = ?u"
    by (simp only: rev_append trim_def)
  then show ?thesis by simp
qed

lemma sample_lines:
  "js_split newline (trim sample_csv) = [''symbol , price'', ''ES, 4500 ,extra'', ''   '', ''NQ'']"
  by (simp add: sample_csv_def trim_def is_ws_def)

lemma proto_lines:
  "js_split newline (trim proto_csv) = [''__proto__,symbol'', ''1,ES'']"
  by (simp add: proto_csv_def trim_def is_ws_def)

text \<open>
  C8 (amended).  With the lines of the trimmed input, the header names of the first line
  and the non-blank lines after it: \<open>parseCSV\<close> returns one record per non-blank data
  line (blank lines are dropped); it returns the empty sequence, and raises nothing, when
  there are only blank lines after the header or no line break at all; every record has
  as its fields exactly the trimmed header names other than \<open>__proto__\<close>; the field of
  such a header (the last one of that name) holds the trimmed value at the header's
  position, or the empty string when the row is too short; and values beyond the header
  length do not matter.
\<close>

theorem parseCSV_rows:
  "(let lines = js_split newline (trim csvText);
        headers = js_split comma (hd lines);
        dataLines = filter (\<lambda>line. trim line \<noteq> []) (tl lines)
    in length (parseCSV csvText) = length dataLines \<and>
       ((\<forall>line\<in>set (tl lines). trim line = []) \<longrightarrow> parseCSV csvText = []) \<and>
       (\<forall>k<length dataLines.
          let vals = js_split comma (dataLines ! k); obj = parseCSV csvText ! k
          in dom obj = trim ` set headers - {''__proto__''} \<and>
             (\<forall>i<length headers.
                trim (headers ! i) \<noteq> ''__proto__'' \<and>
                (\<forall>j. i < j \<and> j < length headers \<longrightarrow> trim (headers ! j) \<noteq> trim (headers ! i))
                \<longrightarrow> obj (trim (headers ! i)) =
                      Some (if i < length vals then trim (vals ! i) else [])) \<and>
             obj = row_object headers (take (length headers) vals))) \<and>
   (newline \<notin> set (trim csvText) \<longrightarrow> parseCSV csvText = [])"
proof -
  define lines where "lines = js_split newline (trim csvText)"
  define headers where "headers = js_split comma (hd lines)"
  define dataLines where "dataLines = filter (\<lambda>line. trim line \<noteq> []) (tl lines)"
  have eq: "parseCSV csvText = map (\<lambda>line. row_object headers (js_split comma line)) dataLines"
    unfolding lines_def headers_def dataLines_def by (rule parseCSV_eq)
  have len: "length (parseCSV csvText) = length dataLines"
    by (simp add: eq)
  have blank: "(\<forall>line\<in>set (tl lines). trim line = []) \<longrightarrow> parseCSV csvText = []"
    by (simp add: eq dataLines_def)
  have row: "let vals = js_split comma (dataLines ! k); obj = parseCSV csvText ! k
          in dom obj = trim ` set headers - {''__proto__''} \<and>
             (\<forall>i<length headers.
                trim (headers ! i) \<noteq> ''__proto__'' \<and>
                (\<forall>j. i < j \<and> j < length headers \<longrightarrow> trim (headers ! j) \<noteq> trim (headers ! i))
                \<longrightarrow> obj (trim (headers ! i)) =
                      Some (if i < length vals then trim (vals ! i) else [])) \<and>
             obj = row_object headers (take (length headers) vals)"
    if "k < length dataLines" for k
    using that
    by (simp add: eq Let_def row_object_dom row_object_lookup row_object_take)
  have single: "newline \<notin> set (trim csvText) \<longrightarrow> parseCSV csvText = []"
    by (simp add: eq dataLines_def lines_def js_split_no_sep)
  from len blank row single show ?thesis
    unfolding Let_def lines_def [symmetric] headers_def [symmetric] dataLines_def [symmetric]
    by blast
qed

text \<open>
  A header-only text decodes to no record; the sample table decodes to two records, with
  trimmed names and values, the short row padded.
\<close>

theorem parseCSV_rows_witness:
  "parseCSV ''symbol,price'' = [] \<and>
   length (parseCSV sample_csv) = 2 \<and>
   dom (parseCSV sample_csv ! 1) = {''symbol'', ''price''} \<and>
   (parseCSV sample_csv ! 0) ''price'' = Some ''4500'' \<and>
   (parseCSV sample_csv ! 1) ''price'' = Some []"
proof -
  have hs: "js_split comma (hd [''symbol , price'', ''ES, 4500 ,extra'', ''   '', ''NQ''])
              = [''symbol '', '' price'']"
    by simp
  have ds: "filter (\<lambda>line. trim line \<noteq> [])
              (tl [''symbol , price'', ''ES, 4500 ,extra'', ''   '', ''NQ''])
              = [''ES, 4500 ,extra'', ''NQ'']"
    by (simp add: trim_def is_ws_def)
  note t = parseCSV_rows [of sample_csv, unfolded Let_def sample_lines hs ds]
  have tr: "trim ''symbol '' = ''symbol''" "trim '' price'' = ''price''"
    "trim '' 4500 '' = ''4500''"
    by (simp_all add: trim_def is_ws_def)
  have len: "length (parseCSV sample_csv) = 2"
    using t [THEN conjunct1, THEN conjunct1] by simp
  have lt: "0 < length [''ES, 4500 ,extra'', ''NQ'']" "1 < length [''ES, 4500 ,extra'', ''NQ'']"
    by simp_all
  note r0 = t [THEN conjunct1, THEN conjunct2, THEN conjunct2, rule_format, OF lt(1)]
  note r1 = t [THEN conjunct1, THEN conjunct2, THEN conjunct2, rule_format, OF lt(2)]
  have d1: "dom (parseCSV sample_csv ! 1) = {''symbol'', ''price''}"
    using r1 [THEN conjunct1] by (auto simp: tr)
  have "(parseCSV sample_csv ! 0) (trim ([''symbol '', '' price''] ! 1)) =
          Some (if 1 < length (js_split comma ([''ES, 4500 ,extra'', ''NQ''] ! 0))
                then trim (js_split comma ([''ES, 4500 ,extra'', ''NQ''] ! 0) ! 1) else [])"
    by (rule r0 [THEN conjunct2, THEN conjunct1, rule_format]) (auto simp: tr)
  then have b0: "(parseCSV sample_csv ! 0) ''price'' = Some ''4500''"
    by (simp add: tr)
  have "(parseCSV sample_csv ! 1) (trim ([''symbol '', '' price''] ! 1)) =
          Some (if 1 < length (js_split comma ([''ES, 4500 ,extra'', ''NQ''] ! 1))
                then trim (js_split comma ([''ES, 4500 ,extra'', ''NQ''] ! 1) ! 1) else [])"
    by (rule r1 [THEN conjunct2, THEN conjunct1, rule_format]) (auto simp: tr)
  then have b1: "(parseCSV sample_csv ! 1) ''price'' = Some []"
    by (simp add: tr)
  have "newline \<notin> set (trim ''symbol,price'')"
    by (simp add: trim_def is_ws_def)
  with parseCSV_rows [of "''symbol,price''"] have e: "parseCSV ''symbol,price'' = []"
    by blast
  from e len d1 b0 b1 show ?thesis by blast
qed

text \<open>
  C8 as stated fails for a header named \<open>__proto__\<close>: the record decoded from the data
  line \<open>1,ES\<close> under the header line \<open>__proto__,symbol\<close> has the field \<open>symbol\<close> only, so it
  does not contain every header field.
\<close>

theorem parseCSV_rows_counterexample:
  "js_split comma (hd (js_split newline (trim proto_csv))) = [''__proto__'', ''symbol''] \<and>
   length (parseCSV proto_csv) = 1 \<and>
   dom (parseCSV proto_csv ! 0) = {''symbol''} \<and>
   (parseCSV proto_csv ! 0) ''__proto__'' = None \<and>
   (parseCSV proto_csv ! 0) ''symbol'' = Some ''ES''"
proof -
  have tr: "trim ''1,ES'' \<noteq> []" "trim ''__proto__'' = ''__proto__''" "trim ''symbol'' = ''symbol''"
    "trim ''ES'' = ''ES''" "trim ''1'' = ''1''"
    by (simp_all add: trim_def is_ws_def)
  have p: "parseCSV proto_csv = [row_object [''__proto__'', ''symbol''] [''1'', ''ES'']]"
    by (simp add: parseCSV_eq proto_lines tr)
  have r: "row_object [''__proto__'', ''symbol''] [''1'', ''ES''] = [''symbol'' \<mapsto> ''ES'']"
    by (simp add: row_object_def set_property_def cell_eq tr upt_conv_Cons)
  show ?thesis
    by (simp add: proto_lines p r)
qed

section \<open>The session classifier: facts\<close>

text \<open>
  The start of the UTC day of a valid time value below the largest one, and every hour of
  that day, are valid time values: 8.64e15 ms is 100000000 days.
\<close>

lemma day_bounds:
  fixes t :: int
  assumes "- 8640000000000000 \<le> t" "t < 8640000000000000"
  shows "- 8640000000000000 \<le> t div 86400000 * 86400000"
    and "t div 86400000 * 86400000 + 79200000 \<le> 8640000000000000"
proof -
  have "(- 8640000000000000) div 86400000 \<le> t div (86400000::int)"
    using assms(1) by (intro zdiv_mono1) simp_all
  then have lo: "- 100000000 \<le> t div 86400000" by simp
  have "t div 86400000 \<le> (8640000000000000 - 1) div (86400000::int)"
    using assms(2) by (intro zdiv_mono1) simp_all
  then have hi: "t div 86400000 \<le> 99999999" by simp
  show "- 8640000000000000 \<le> t div 86400000 * 86400000"
    using lo by linarith
  show "t div 86400000 * 86400000 + 79200000 \<le> 8640000000000000"
    using hi by linarith
qed

lemma setUTCHours_valid:
  assumes "\<bar>t\<bar> \<le> maxTime" "t \<noteq> maxTime" "0 \<le> h" "h \<le> 22"
  shows "setUTCHours (DateAt t) h = DateAt (t div 86400000 * 86400000 + h * 3600000)"
proof -
  have r: "- 8640000000000000 \<le> t" "t < 8640000000000000"
    using assms(1,2) by (simp_all add: maxTime_def)
  note b = day_bounds [OF r]
  have "- 8640000000000000 \<le> t div 86400000 * 86400000 + h * 3600000"
    using b(1) assms(3) by linarith
  moreover have "t div 86400000 * 86400000 + h * 3600000 \<le> 8640000000000000"
    using b(2) assms(4) by linarith
  ultimately show ?thesis
    by (simp add: time_clip_def maxTime_def msPerDay_def msPerHour_def)
qed

lemma getSessionInfo_table:
  assumes "\<bar>t\<bar> \<le> maxTime" "t \<noteq> maxTime"
  shows "getSessionInfo (Some (DateAt t)) c =
     (let h = (t div 3600000) mod 24; day = t div 86400000 * 86400000
      in if h < 7 then
           \<lparr>currentSession = Asian, sessionStart = DateAt day,
            sessionEnd = DateAt (day + 7 * 3600000), session_timestamp = DateAt t\<rparr>
         else if h < 14 then
           \<lparr>currentSession = London, sessionStart = DateAt (day + 7 * 3600000),
            sessionEnd = DateAt (day + 14 * 3600000), session_timestamp = DateAt t\<rparr>
         else if h < 22 then
           \<lparr>currentSession = NY, sessionStart = DateAt (day + 14 * 3600000),
            sessionEnd = DateAt (day + 22 * 3600000), session_timestamp = DateAt t\<rparr>
         else
           \<lparr>currentSession = Unknown, sessionStart = DateAt t,
            sessionEnd = DateAt t, session_timestamp = DateAt t\<rparr>)"
  using setUTCHours_valid [OF assms, of 0] setUTCHours_valid [OF assms, of 7]
    setUTCHours_valid [OF assms, of 14] setUTCHours_valid [OF assms, of 22]
  by (simp add: getSessionInfo_def hour_in_def msPerHour_def Let_def)

lemma getSessionInfo_invalid:
  "getSessionInfo (Some InvalidDate) c =
     \<lparr>currentSession = Unknown, sessionStart = InvalidDate,
      sessionEnd = InvalidDate, session_timestamp = InvalidDate\<rparr>"
  by (simp add: getSessionInfo_def hour_in_def)

text \<open>The hour of the day against the start of the day: 86400000 = 24 * 3600000.\<close>

lemma hour_day_decomp:
  fixes t :: int
  shows "t div 3600000 = 24 * (t div 86400000) + (t div 3600000) mod 24"
proof -
  have "(t div 3600000) div 24 = t div 86400000"
    by (simp add: div_mult2_eq [symmetric])
  then show ?thesis
    using div_mult_mod_eq [of "t div 3600000" 24] by simp
qed

lemma hour_window:
  fixes t :: int
  shows "t div 3600000 * 3600000 \<le> t" and "t < t div 3600000 * 3600000 + 3600000"
proof -
  have "t = t div 3600000 * 3600000 + t mod 3600000" by simp
  moreover have "0 \<le> t mod 3600000" "t mod 3600000 < 3600000" by simp_all
  ultimately show "t div 3600000 * 3600000 \<le> t" and "t < t div 3600000 * 3600000 + 3600000"
    by linarith+
qed

lemma session_bounds_arith:
  fixes t :: int
  assumes "lo \<le> (t div 3600000) mod 24" "(t div 3600000) mod 24 < hi"
  shows "t div 86400000 * 86400000 + lo * 3600000 \<le> t"
    and "t < t div 86400000 * 86400000 + hi * 3600000"
proof -
  define H where "H = t div 3600000"
  define D where "D = t div 86400000"
  define h where "h = H mod 24"
  have 1: "H = 24 * D + h" unfolding H_def D_def h_def by (rule hour_day_decomp)
  have 2: "H * 3600000 \<le> t" "t < H * 3600000 + 3600000"
    unfolding H_def by (rule hour_window)+
  have 3: "lo \<le> h" "h < hi" using assms by (simp_all add: h_def H_def)
  show "t div 86400000 * 86400000 + lo * 3600000 \<le> t"
    using 1 2 3 unfolding D_def [symmetric] by linarith
  show "t < t div 86400000 * 86400000 + hi * 3600000"
    using 1 2 3 unfolding D_def [symmetric] by linarith
qed

lemma same_day:
  fixes D :: int
  assumes "0 \<le> k" "k < 86400000"
  shows "(D * 86400000 + k) div 86400000 = D"
  using assms by simp

lemma getSessionInfo_window:
  assumes "\<bar>t\<bar> \<le> maxTime" "t \<noteq> maxTime" "(t div 3600000) mod 24 < 22"
  shows "\<exists>a b. sessionStart (getSessionInfo (Some (DateAt t)) c) = DateAt a \<and>
               sessionEnd (getSessionInfo (Some (DateAt t)) c) = DateAt b \<and>
               a \<le> t \<and> t < b \<and>
               a div 86400000 = t div 86400000 \<and> b div 86400000 = t div 86400000"
proof -
  let ?h = "(t div 3600000) mod 24"
  note tab = getSessionInfo_table [OF assms(1,2)]
  have h0: "0 \<le> ?h" by simp
  consider "?h < 7" | "7 \<le> ?h" "?h < 14" | "14 \<le> ?h" "?h < 22"
    using assms(3) by linarith
  then show ?thesis
  proof cases
    case 1
    show ?thesis
      using session_bounds_arith [OF h0 1] 1
      by (simp add: tab Let_def same_day)
  next
    case 2
    show ?thesis
      using session_bounds_arith [OF 2] 2
      by (simp add: tab Let_def same_day)
  next
    case 3
    show ?thesis
      using session_bounds_arith [OF 3] 3
      by (simp add: tab Let_def same_day)
  qed
qed

text \<open>
  C7 (amended).  \<open>getSessionInfo\<close> is a total function of its input.  The UTC hour of a
  timestamp lies in [0,24) and decides the session: [0,7) is Asian, [7,14) is London,
  [14,22) is NY and [22,24) is Unknown.  For every valid timestamp other than the largest
  one (8.64e15 ms) the bounds are 00:00 and 07:00 of that UTC day for Asian, 07:00 and
  14:00 for London, 14:00 and 22:00 for NY, and both equal to the input timestamp for
  Unknown.  (An invalid date has no hour and is classified Unknown as well; an omitted
  timestamp is the current time.)  At 2021-01-01T22:00:00Z, that is 1609538400000 ms, the
  session is Unknown and both bounds are the input.
\<close>

theorem getSessionInfo_sessions:
  "0 \<le> (t div 3600000) mod 24 \<and> (t div 3600000) mod 24 < 24 \<and>
   getUTCHours (DateAt t) = Some ((t div 3600000) mod 24) \<and>
   currentSession (getSessionInfo (Some (DateAt t)) c) =
     (let h = (t div 3600000) mod 24
      in if h < 7 then Asian else if h < 14 then London else if h < 22 then NY else Unknown) \<and>
   (\<bar>t\<bar> \<le> maxTime \<and> t \<noteq> maxTime \<longrightarrow>
    getSessionInfo (Some (DateAt t)) c =
     (let h = (t div 3600000) mod 24; day = t div 86400000 * 86400000
      in if h < 7 then
           \<lparr>currentSession = Asian, sessionStart = DateAt day,
            sessionEnd = DateAt (day + 7 * 3600000), session_timestamp = DateAt t\<rparr>
         else if h < 14 then
           \<lparr>currentSession = London, sessionStart = DateAt (day + 7 * 3600000),
            sessionEnd = DateAt (day + 14 * 3600000), session_timestamp = DateAt t\<rparr>
         else if h < 22 then
           \<lparr>currentSession = NY, sessionStart = DateAt (day + 14 * 3600000),
            sessionEnd = DateAt (day + 22 * 3600000), session_timestamp = DateAt t\<rparr>
         else
           \<lparr>currentSession = Unknown, sessionStart = DateAt t,
            sessionEnd = DateAt t, session_timestamp = DateAt t\<rparr>)) \<and>
   getSessionInfo (Some InvalidDate) c =
     \<lparr>currentSession = Unknown, sessionStart = InvalidDate,
      sessionEnd = InvalidDate, session_timestamp = InvalidDate\<rparr> \<and>
   getSessionInfo None c = getSessionInfo (Some (DateAt c)) c \<and>
   getSessionInfo (Some (DateAt 1609538400000)) c =
     \<lparr>currentSession = Unknown, sessionStart = DateAt 1609538400000,
      sessionEnd = DateAt 1609538400000, session_timestamp = DateAt 1609538400000\<rparr>"
proof -
  have "getSessionInfo None c = getSessionInfo (Some (DateAt c)) c"
    by (simp add: getSessionInfo_def)
  moreover have "getSessionInfo (Some (DateAt 1609538400000)) c =
     \<lparr>currentSession = Unknown, sessionStart = DateAt 1609538400000,
      sessionEnd = DateAt 1609538400000, session_timestamp = DateAt 1609538400000\<rparr>"
    by (simp add: getSessionInfo_def hour_in_def msPerHour_def Let_def)
  moreover have "currentSession (getSessionInfo (Some (DateAt t)) c) =
     (let h = (t div 3600000) mod 24
      in if h < 7 then Asian else if h < 14 then London else if h < 22 then NY else Unknown)"
    by (simp add: getSessionInfo_def hour_in_def msPerHour_def Let_def)
  ultimately show ?thesis
    using getSessionInfo_table [of t c] getSessionInfo_invalid [of c]
    by (simp add: msPerHour_def)
qed

text \<open>Evaluated at 2021-01-01T03:00:00Z, in the Asian session.\<close>

theorem getSessionInfo_sessions_witness:
  "\<bar>1609470000000\<bar> \<le> maxTime \<and> 1609470000000 \<noteq> maxTime \<and>
   getSessionInfo (Some (DateAt 1609470000000)) 0 =
     \<lparr>currentSession = Asian, sessionStart = DateAt 1609459200000,
      sessionEnd = DateAt 1609484400000, session_timestamp = DateAt 1609470000000\<rparr>"
  using getSessionInfo_sessions [of 1609470000000 0]
  by (simp add: Let_def maxTime_def)

text \<open>
  C7 as stated fails at the largest valid timestamp, 8.64e15 ms, which falls on 00:00 UTC:
  the session is Asian, but 07:00 of that UTC day is beyond the range of time values, and
  the end bound returned is the invalid date.
\<close>

theorem getSessionInfo_sessions_counterexample:
  "time_clip 8640000000000000 = DateAt 8640000000000000 \<and>
   getUTCHours (DateAt 8640000000000000) = Some 0 \<and>
   currentSession (getSessionInfo (Some (DateAt 8640000000000000)) 0) = Asian \<and>
   sessionStart (getSessionInfo (Some (DateAt 8640000000000000)) 0) = DateAt 8640000000000000 \<and>
   sessionEnd (getSessionInfo (Some (DateAt 8640000000000000)) 0) = InvalidDate \<and>
   sessionEnd (getSessionInfo (Some (DateAt 8640000000000000)) 0)
     \<noteq> DateAt (8640000000000000 div 86400000 * 86400000 + 7 * 3600000)"
  by (simp add: getSessionInfo_def hour_in_def msPerHour_def msPerDay_def time_clip_def
      maxTime_def Let_def)

text \<open>
  C10 (amended).  For every valid input timestamp other than the largest one (8.64e15 ms)
  whose UTC hour lies in [0,22) the result satisfies sessionStart \<open>\<le>\<close> timestamp \<open><\<close>
  sessionEnd, and both bounds fall on the UTC calendar day of the input.  The function has
  no failing path: for every input date, valid or not, and for an omitted one, it returns
  a record, whose timestamp is the input.
\<close>

theorem getSessionInfo_bounds:
  "(\<bar>t\<bar> \<le> maxTime \<and> t \<noteq> maxTime \<and> getUTCHours (DateAt t) = Some h \<and> h < 22 \<longrightarrow>
      date_le (sessionStart (getSessionInfo (Some (DateAt t)) c)) (DateAt t) \<and>
      date_lt (DateAt t) (sessionEnd (getSessionInfo (Some (DateAt t)) c)) \<and>
      utc_day (sessionStart (getSessionInfo (Some (DateAt t)) c)) = utc_day (DateAt t) \<and>
      utc_day (sessionEnd (getSessionInfo (Some (DateAt t)) c)) = utc_day (DateAt t)) \<and>
   session_timestamp (getSessionInfo ts c) = (case ts of None \<Rightarrow> DateAt c | Some d \<Rightarrow> d)"
proof -
  have total: "session_timestamp (getSessionInfo ts c) =
                 (case ts of None \<Rightarrow> DateAt c | Some d \<Rightarrow> d)"
    by (simp add: getSessionInfo_def Let_def split: option.splits)
  have "date_le (sessionStart (getSessionInfo (Some (DateAt t)) c)) (DateAt t) \<and>
        date_lt (DateAt t) (sessionEnd (getSessionInfo (Some (DateAt t)) c)) \<and>
        utc_day (sessionStart (getSessionInfo (Some (DateAt t)) c)) = utc_day (DateAt t) \<and>
        utc_day (sessionEnd (getSessionInfo (Some (DateAt t)) c)) = utc_day (DateAt t)"
    if v: "\<bar>t\<bar> \<le> maxTime" "t \<noteq> maxTime" and h: "getUTCHours (DateAt t) = Some h" "h < 22"
  proof -
    have "(t div 3600000) mod 24 < 22"
      using h by (simp add: msPerHour_def)
    from getSessionInfo_window [OF v this, of c]
    show ?thesis by (auto simp: msPerDay_def)
  qed
  with total show ?thesis by blast
qed

text \<open>Evaluated at 2021-01-01T10:00:00Z, in the London session.\<close>

theorem getSessionInfo_bounds_witness:
  "\<bar>1609495200000\<bar> \<le> maxTime \<and> 1609495200000 \<noteq> maxTime \<and>
   getUTCHours (DateAt 1609495200000) = Some 10 \<and> (10::int) < 22 \<and>
   date_le (sessionStart (getSessionInfo (Some (DateAt 1609495200000)) 0))
     (DateAt 1609495200000) \<and>
   date_lt (DateAt 1609495200000)
     (sessionEnd (getSessionInfo (Some (DateAt 1609495200000)) 0))"
proof -
  have h: "\<bar>1609495200000\<bar> \<le> maxTime \<and> 1609495200000 \<noteq> maxTime \<and>
           getUTCHours (DateAt 1609495200000) = Some 10 \<and> (10::int) < 22"
    by (simp add: msPerHour_def maxTime_def)
  with getSessionInfo_bounds [of 1609495200000 10 0] show ?thesis by blast
qed

text \<open>
  C10 as stated fails at the largest valid timestamp, 8.64e15 ms, whose UTC hour is 0: the
  end bound is the invalid date, so that timestamp \<open><\<close> sessionEnd is false and the end
  bound falls on no calendar day.
\<close>

theorem getSessionInfo_bounds_counterexample:
  "getUTCHours (DateAt 8640000000000000) = Some 0 \<and> (0::int) < 22 \<and>
   \<not> date_lt (DateAt 8640000000000000)
       (sessionEnd (getSessionInfo (Some (DateAt 8640000000000000)) 0)) \<and>
   utc_day (sessionEnd (getSessionInfo (Some (DateAt 8640000000000000)) 0))
     \<noteq> utc_day (DateAt 8640000000000000)"
  by (simp add: getSessionInfo_def hour_in_def msPerHour_def msPerDay_def time_clip_def
      maxTime_def Let_def)

section \<open>The transport: facts\<close>

lemma show_nat_3: "show_nat 3 = ''3''"
  by (simp add: show_nat.simps char_of_eq_iff)

lemma show_nat_401: "show_nat 401 = ''401''"
  by (simp add: show_nat.simps char_of_eq_iff)

lemma request_loop_step:
  "attempt \<le> 3 \<Longrightarrow>
   request_loop attempt s =
     (case attempt_result (network s (fetches s)) of
        Inr text \<Rightarrow> (Inr text, s\<lparr>fetches := Suc (fetches s), events := events s @ [Fetched]\<rparr>)
      | Inl err \<Rightarrow>
          if attempt = 3 then
            (Inl (Error (''DataBento API request failed after 3 attempts: '' @ err)),
             s\<lparr>fetches := Suc (fetches s), events := events s @ [Fetched]\<rparr>)
          else request_loop (attempt + 1)
                 (s\<lparr>fetches := Suc (fetches s),
                    events := events s @ [Fetched, Slept (1000 * int attempt)]\<rparr>))"
  by (subst request_loop.simps)
     (simp add: fetch_def retryAttempts_def retryDelayMs_def sleep_def show_nat_3 split: sum.splits)

lemma makeRequest_first:
  "attempt_result (network s (fetches s)) = Inr text \<Longrightarrow>
   makeRequest s = (Inr text, s\<lparr>fetches := fetches s + 1, events := events s @ [Fetched]\<rparr>)"
  by (simp add: makeRequest_def request_loop_step)

lemma makeRequest_second:
  "attempt_result (network s (fetches s)) = Inl e1 \<Longrightarrow>
   attempt_result (network s (fetches s + 1)) = Inr text \<Longrightarrow>
   makeRequest s =
     (Inr text, s\<lparr>fetches := fetches s + 2,
                  events := events s @ [Fetched, Slept 1000, Fetched]\<rparr>)"
  by (simp add: makeRequest_def request_loop_step)

lemma makeRequest_third:
  "attempt_result (network s (fetches s)) = Inl e1 \<Longrightarrow>
   attempt_result (network s (fetches s + 1)) = Inl e2 \<Longrightarrow>
   attempt_result (network s (fetches s + 2)) = Inr text \<Longrightarrow>
   makeRequest s =
     (Inr text, s\<lparr>fetches := fetches s + 3,
                  events := events s @ [Fetched, Slept 1000, Fetched, Slept 2000, Fetched]\<rparr>)"
  by (simp add: makeRequest_def request_loop_step)

lemma makeRequest_exhausted:
  "attempt_result (network s (fetches s)) = Inl e1 \<Longrightarrow>
   attempt_result (network s (fetches s + 1)) = Inl e2 \<Longrightarrow>
   attempt_result (network s (fetches s + 2)) = Inl e3 \<Longrightarrow>
   makeRequest s =
     (Inl (Error (''DataBento API request failed after 3 attempts: '' @ e3)),
      s\<lparr>fetches := fetches s + 3,
        events := events s @ [Fetched, Slept 1000, Fetched, Slept 2000, Fetched]\<rparr>)"
  by (simp add: makeRequest_def request_loop_step)

text \<open>What a request leaves alone, and how many attempts it makes.\<close>

lemma makeRequest_frame:
  "priceCache (snd (makeRequest s)) = priceCache s \<and>
   clock (snd (makeRequest s)) = clock s \<and>
   clock_reads (snd (makeRequest s)) = clock_reads s \<and>
   network (snd (makeRequest s)) = network s \<and>
   fetches s < fetches (snd (makeRequest s)) \<and> fetches (snd (makeRequest s)) \<le> fetches s + 3"
proof (cases "attempt_result (network s (fetches s))")
  case (Inr rsp)
  then show ?thesis by (simp add: makeRequest_first)
next
  case a: (Inl e1)
  show ?thesis
  proof (cases "attempt_result (network s (fetches s + 1))")
    case (Inr rsp)
    with a show ?thesis by (simp add: makeRequest_second)
  next
    case b: (Inl e2)
    show ?thesis
    proof (cases "attempt_result (network s (fetches s + 2))")
      case (Inr rsp)
      with a b show ?thesis by (simp add: makeRequest_third)
    next
      case (Inl e3)
      with a b show ?thesis by (simp add: makeRequest_exhausted)
    qed
  qed
qed


text \<open>
  C4.  Every request makes at least one and at most three attempts.  A failed attempt
  that is not the last is followed by a sleep of attempt \<open>\<times>\<close> 1000 ms (1 s after the
  first, 2 s after the second) and then by the next attempt, in this order and with
  nothing else in between; when the third attempt fails too the call raises the terminal
  error, whose message holds the attempt count 3 and the last failure; as soon as an
  attempt succeeds the call returns its response text.  The failure of an attempt is: the
  error thrown by \<open>fetch\<close> (a network error or a timeout); for a response with a status
  outside 200..299, the error \<open>HTTP <status>: <statusText> - <body>\<close>, or what reading the
  body throws; for a 2xx response, what reading the body throws.  A 2xx response whose
  body reads is a success, with the body as its text.
\<close>

theorem makeRequest_retry:
  "fetches s < fetches (snd (makeRequest s)) \<and>
   fetches (snd (makeRequest s)) \<le> fetches s + 3 \<and>
   (attempt_result (network s (fetches s)) = Inr rsp \<longrightarrow>
      makeRequest s =
        (Inr rsp, s\<lparr>fetches := fetches s + 1, events := events s @ [Fetched]\<rparr>)) \<and>
   (isl (attempt_result (network s (fetches s))) \<and>
    attempt_result (network s (fetches s + 1)) = Inr rsp \<longrightarrow>
      makeRequest s =
        (Inr rsp, s\<lparr>fetches := fetches s + 2,
                    events := events s @ [Fetched, Slept (1 * 1000), Fetched]\<rparr>)) \<and>
   (isl (attempt_result (network s (fetches s))) \<and>
    isl (attempt_result (network s (fetches s + 1))) \<and>
    attempt_result (network s (fetches s + 2)) = Inr rsp \<longrightarrow>
      makeRequest s =
        (Inr rsp,
         s\<lparr>fetches := fetches s + 3,
           events := events s @
             [Fetched, Slept (1 * 1000), Fetched, Slept (2 * 1000), Fetched]\<rparr>)) \<and>
   (isl (attempt_result (network s (fetches s))) \<and>
    isl (attempt_result (network s (fetches s + 1))) \<and>
    attempt_result (network s (fetches s + 2)) = Inl err \<longrightarrow>
      makeRequest s =
        (Inl (Error (''DataBento API request failed after 3 attempts: '' @ err)),
         s\<lparr>fetches := fetches s + 3,
           events := events s @
             [Fetched, Slept (1 * 1000), Fetched, Slept (2 * 1000), Fetched]\<rparr>)) \<and>
   attempt_result (FetchThrows thrown) = Inl thrown \<and>
   (\<not> (200 \<le> status \<and> status \<le> 299) \<longrightarrow>
      attempt_result (FetchResponse status statusText (Inr errorText)) =
        Inl (''Error: HTTP '' @ show_nat status @ '': '' @ statusText @ '' - '' @ errorText) \<and>
      attempt_result (FetchResponse status statusText (Inl thrown)) = Inl thrown) \<and>
   (200 \<le> status \<and> status \<le> 299 \<longrightarrow>
      attempt_result (FetchResponse status statusText (Inr rsp)) = Inr rsp \<and>
      attempt_result (FetchResponse status statusText (Inl thrown)) = Inl thrown)"
proof -
  have kinds: "attempt_result (FetchThrows thrown) = Inl thrown"
    "\<not> (200 \<le> status \<and> status \<le> 299) \<longrightarrow>
      attempt_result (FetchResponse status statusText (Inr errorText)) =
        Inl (''Error: HTTP '' @ show_nat status @ '': '' @ statusText @ '' - '' @ errorText) \<and>
      attempt_result (FetchResponse status statusText (Inl thrown)) = Inl thrown"
    "200 \<le> status \<and> status \<le> 299 \<longrightarrow>
      attempt_result (FetchResponse status statusText (Inr rsp)) = Inr rsp \<and>
      attempt_result (FetchResponse status statusText (Inl thrown)) = Inl thrown"
    by (simp_all add: attempt_result_def response_ok_def)
  have bound: "fetches s < fetches (snd (makeRequest s))"
    "fetches (snd (makeRequest s)) \<le> fetches s + 3"
    using makeRequest_frame [of s] by simp_all
  have one: "attempt_result (network s (fetches s)) = Inr rsp \<longrightarrow>
      makeRequest s =
        (Inr rsp, s\<lparr>fetches := fetches s + 1, events := events s @ [Fetched]\<rparr>)"
    by (simp add: makeRequest_first)
  have two: "isl (attempt_result (network s (fetches s))) \<and>
    attempt_result (network s (fetches s + 1)) = Inr rsp \<longrightarrow>
      makeRequest s =
        (Inr rsp, s\<lparr>fetches := fetches s + 2,
                    events := events s @ [Fetched, Slept (1 * 1000), Fetched]\<rparr>)"
    using makeRequest_second [of s _ rsp] by (auto simp: isl_def)
  have three: "isl (attempt_result (network s (fetches s))) \<and>
    isl (attempt_result (network s (fetches s + 1))) \<and>
    attempt_result (network s (fetches s + 2)) = Inr rsp \<longrightarrow>
      makeRequest s =
        (Inr rsp,
         s\<lparr>fetches := fetches s + 3,
           events := events s @
             [Fetched, Slept (1 * 1000), Fetched, Slept (2 * 1000), Fetched]\<rparr>)"
    using makeRequest_third [of s _ _ rsp] by (auto simp: isl_def)
  have none: "isl (attempt_result (network s (fetches s))) \<and>
    isl (attempt_result (network s (fetches s + 1))) \<and>
    attempt_result (network s (fetches s + 2)) = Inl err \<longrightarrow>
      makeRequest s =
        (Inl (Error (''DataBento API request failed after 3 attempts: '' @ err)),
         s\<lparr>fetches := fetches s + 3,
           events := events s @
             [Fetched, Slept (1 * 1000), Fetched, Slept (2 * 1000), Fetched]\<rparr>)"
    using makeRequest_exhausted [of s _ _ err] by (auto simp: isl_def)
  from kinds bound one two three none show ?thesis by blast
qed

text \<open>
  Two responses 503 and then a 200: the text of the third attempt is returned after waits
  of 1 s and 2 s.  A network that is down, and a server that answers 401 every time: the
  terminal error after three attempts, with the last failure in its message.
\<close>

theorem makeRequest_retry_witness:
  "makeRequest flaky =
     (Inr ''a,b'',
      flaky\<lparr>fetches := 3, events := [Fetched, Slept 1000, Fetched, Slept 2000, Fetched]\<rparr>) \<and>
   makeRequest offline =
     (Inl (Error ''DataBento API request failed after 3 attempts: TypeError: fetch failed''),
      offline\<lparr>fetches := 3, events := [Fetched, Slept 1000, Fetched, Slept 2000, Fetched]\<rparr>) \<and>
   makeRequest unauthorized =
     (Inl (Error
        ''DataBento API request failed after 3 attempts: Error: HTTP 401: Unauthorized - Invalid API key''),
      unauthorized\<lparr>fetches := 3,
        events := [Fetched, Slept 1000, Fetched, Slept 2000, Fetched]\<rparr>)"
proof -
  have a: "isl (attempt_result (network flaky (fetches flaky))) \<and>
    isl (attempt_result (network flaky (fetches flaky + 1))) \<and>
    attempt_result (network flaky (fetches flaky + 2)) = Inr ''a,b''"
    by (simp add: flaky_def attempt_result_def response_ok_def)
  have b: "isl (attempt_result (network offline (fetches offline))) \<and>
    isl (attempt_result (network offline (fetches offline + 1))) \<and>
    attempt_result (network offline (fetches offline + 2)) = Inl ''TypeError: fetch failed''"
    by (simp add: offline_def attempt_result_def)
  have k: "attempt_result (FetchResponse 401 ''Unauthorized'' (Inr ''Invalid API key'')) =
             Inl (''Error: HTTP '' @ show_nat 401 @ '': '' @ ''Unauthorized'' @ '' - ''
                    @ ''Invalid API key'')"
    using makeRequest_retry [of flaky _ _ _ 401 "''Unauthorized''" "''Invalid API key''"]
    by simp
  have c: "isl (attempt_result (network unauthorized (fetches unauthorized))) \<and>
    isl (attempt_result (network unauthorized (fetches unauthorized + 1))) \<and>
    attempt_result (network unauthorized (fetches unauthorized + 2)) =
      Inl ''Error: HTTP 401: Unauthorized - Invalid API key''"
    by (simp add: unauthorized_def k show_nat_401)
  have "makeRequest flaky =
     (Inr ''a,b'',
      flaky\<lparr>fetches := fetches flaky + 3,
        events := events flaky @
          [Fetched, Slept (1 * 1000), Fetched, Slept (2 * 1000), Fetched]\<rparr>)"
    using a makeRequest_retry [of flaky "''a,b''"] by blast
  moreover have "makeRequest offline =
     (Inl (Error (''DataBento API request failed after 3 attempts: ''
                    @ ''TypeError: fetch failed'')),
      offline\<lparr>fetches := fetches offline + 3,
        events := events offline @
          [Fetched, Slept (1 * 1000), Fetched, Slept (2 * 1000), Fetched]\<rparr>)"
    using b makeRequest_retry [of offline _ "''TypeError: fetch failed''"] by blast
  moreover have "makeRequest unauthorized =
     (Inl (Error (''DataBento API request failed after 3 attempts: ''
                    @ ''Error: HTTP 401: Unauthorized - Invalid API key'')),
      unauthorized\<lparr>fetches := fetches unauthorized + 3,
        events := events unauthorized @
          [Fetched, Slept (1 * 1000), Fetched, Slept (2 * 1000), Fetched]\<rparr>)"
    using c makeRequest_retry [of unauthorized _ "''Error: HTTP 401: Unauthorized - Invalid API key''"]
    by blast
  ultimately show ?thesis
    by (simp add: flaky_def offline_def unauthorized_def)
qed

section \<open>Aggregation to four-hour bars: facts\<close>

lemma upt_0_Suc_shift: "[0..<Suc n] = 0 # map Suc [0..<n]"
  by (simp add: upt_conv_Cons map_Suc_upt del: upt_Suc)

lemma aggregate_loop_eq:
  "aggregate_loop i bars acc =
     acc @ map (\<lambda>k. aggregate_chunk (take 4 (drop (i + 4 * k) bars)))
             [0..<(length bars - i + 3) div 4]"
proof (induction i bars acc rule: aggregate_loop.induct)
  case (1 i bars h4Bars)
  show ?case
  proof (cases "i < length bars")
    case False
    then show ?thesis by (simp add: aggregate_loop.simps)
  next
    case True
    let ?chunk = "take 4 (drop i bars)"
    have ne: "length ?chunk \<noteq> 0" using True by simp
    have cnt: "(length bars - i + 3) div 4 = Suc ((length bars - (i + 4) + 3) div 4)"
    proof (cases "4 \<le> length bars - i")
      case True
      then have "length bars - i + 3 = (length bars - (i + 4) + 3) + 4" by simp
      then show ?thesis by (simp only: div_add_self2)
    next
      case False
      with \<open>i < length bars\<close> show ?thesis by simp
    qed
    have "aggregate_loop i bars h4Bars =
            aggregate_loop (i + 4) bars (h4Bars @ [aggregate_chunk ?chunk])"
      using True ne by (subst aggregate_loop.simps) (simp add: Let_def)
    also have "\<dots> = (h4Bars @ [aggregate_chunk ?chunk]) @
        map (\<lambda>k. aggregate_chunk (take 4 (drop (i + 4 + 4 * k) bars)))
          [0..<(length bars - (i + 4) + 3) div 4]"
      using "1.IH"(2) [OF True refl ne] .
    also have "\<dots> = h4Bars @ map (\<lambda>k. aggregate_chunk (take 4 (drop (i + 4 * k) bars)))
             [0..<(length bars - i + 3) div 4]"
      unfolding cnt upt_0_Suc_shift by (simp add: comp_def add.assoc)
    finally show ?thesis .
  qed
qed

lemma aggregateToH4_eq:
  "aggregateToH4 bars =
     map (\<lambda>k. aggregate_chunk (take 4 (drop (4 * k) bars))) [0..<(length bars + 3) div 4]"
  by (simp add: aggregateToH4_def aggregate_loop_eq)

lemma ceil_quarter: "int ((n + 3) div 4) = \<lceil>real n / 4\<rceil>"
proof -
  define z where "z = (n + 3) div 4"
  have "4 * z \<le> n + 3" "n + 3 < 4 * z + 4"
    unfolding z_def by linarith+
  then have "real n \<le> 4 * real z" "4 * real z < real n + 4"
    by linarith+
  then have "\<lceil>real n / 4\<rceil> = int z"
    by (intro ceiling_unique) simp_all
  then show ?thesis by (simp add: z_def)
qed

lemma concat_chunks: "concat (map (\<lambda>k. take m (drop (m * k) xs)) [0..<c]) = take (m * c) xs"
proof (induction c)
  case 0
  then show ?case by simp
next
  case (Suc c)
  have "take (m * c) xs @ take m (drop (m * c) xs) = take (m * c + m) xs"
    by (simp add: take_add)
  with Suc show ?case by (simp add: add.commute)
qed

lemma js_le_refl: "x \<noteq> NaN \<Longrightarrow> js_le x x"
  by (cases x) simp_all

lemma js_le_trans: "js_le x y \<Longrightarrow> js_le y z \<Longrightarrow> js_le x z"
  by (cases x; cases y; cases z) simp_all

lemma js_le_total: "x \<noteq> NaN \<Longrightarrow> y \<noteq> NaN \<Longrightarrow> js_le x y \<or> js_le y x"
  by (cases x; cases y) auto

lemma foldl_max2_NaN: "foldl max2 NaN xs = NaN"
  by (induction xs) (simp_all add: max2_def)

lemma foldl_min2_NaN: "foldl min2 NaN xs = NaN"
  by (induction xs) (simp_all add: min2_def)

lemma foldl_max2_has_NaN: "NaN \<in> set xs \<Longrightarrow> foldl max2 a xs = NaN"
  by (induction xs arbitrary: a) (auto simp: max2_def foldl_max2_NaN)

lemma foldl_min2_has_NaN: "NaN \<in> set xs \<Longrightarrow> foldl min2 a xs = NaN"
  by (induction xs arbitrary: a) (auto simp: min2_def foldl_min2_NaN)

lemma foldl_max2_greatest:
  "a \<noteq> NaN \<Longrightarrow> NaN \<notin> set xs \<Longrightarrow>
   foldl max2 a xs \<in> insert a (set xs) \<and> js_le a (foldl max2 a xs) \<and>
   (\<forall>x\<in>set xs. js_le x (foldl max2 a xs))"
proof (induction xs arbitrary: a)
  case Nil
  then show ?case by (simp add: js_le_refl)
next
  case (Cons x xs)
  have m: "max2 a x \<noteq> NaN" "max2 a x \<in> {a, x}" "js_le a (max2 a x)" "js_le x (max2 a x)"
    using Cons.prems js_le_total [of a x] by (auto simp: max2_def js_le_refl)
  from Cons.IH [OF m(1)] Cons.prems(2)
  have ih: "foldl max2 (max2 a x) xs \<in> insert (max2 a x) (set xs)"
    "js_le (max2 a x) (foldl max2 (max2 a x) xs)"
    "\<forall>y\<in>set xs. js_le y (foldl max2 (max2 a x) xs)"
    by simp_all
  have "js_le a (foldl max2 (max2 a x) xs)" "js_le x (foldl max2 (max2 a x) xs)"
    using js_le_trans [OF m(3) ih(2)] js_le_trans [OF m(4) ih(2)] by blast+
  moreover have "foldl max2 (max2 a x) xs \<in> insert a (set (x # xs))"
    using ih(1) m(2) by auto
  ultimately show ?case
    using ih(3) by simp
qed

lemma foldl_min2_least:
  "a \<noteq> NaN \<Longrightarrow> NaN \<notin> set xs \<Longrightarrow>
   foldl min2 a xs \<in> insert a (set xs) \<and> js_le (foldl min2 a xs) a \<and>
   (\<forall>x\<in>set xs. js_le (foldl min2 a xs) x)"
proof (induction xs arbitrary: a)
  case Nil
  then show ?case by (simp add: js_le_refl)
next
  case (Cons x xs)
  have m: "min2 a x \<noteq> NaN" "min2 a x \<in> {a, x}" "js_le (min2 a x) a" "js_le (min2 a x) x"
    using Cons.prems js_le_total [of a x] by (auto simp: min2_def js_le_refl)
  from Cons.IH [OF m(1)] Cons.prems(2)
  have ih: "foldl min2 (min2 a x) xs \<in> insert (min2 a x) (set xs)"
    "js_le (foldl min2 (min2 a x) xs) (min2 a x)"
    "\<forall>y\<in>set xs. js_le (foldl min2 (min2 a x) xs) y"
    by simp_all
  have "js_le (foldl min2 (min2 a x) xs) a" "js_le (foldl min2 (min2 a x) xs) x"
    using js_le_trans [OF ih(2) m(3)] js_le_trans [OF ih(2) m(4)] by blast+
  moreover have "foldl min2 (min2 a x) xs \<in> insert a (set (x # xs))"
    using ih(1) m(2) by auto
  ultimately show ?case
    using ih(3) by simp
qed

lemma math_max_greatest:
  assumes "xs \<noteq> []" "NaN \<notin> set xs"
  shows "math_max xs \<in> set xs \<and> (\<forall>x\<in>set xs. js_le x (math_max xs))"
proof -
  obtain y ys where xs: "xs = y # ys" using assms(1) by (cases xs) auto
  have y: "y \<noteq> NaN" "NaN \<notin> set ys" using assms(2) xs by auto
  have "max2 NegInf y = y" using y(1) by (cases y) (simp_all add: max2_def)
  then have "math_max xs = foldl max2 y ys" by (simp add: math_max_def xs)
  with foldl_max2_greatest [OF y] show ?thesis by (simp add: xs)
qed

lemma math_min_least:
  assumes "xs \<noteq> []" "NaN \<notin> set xs"
  shows "math_min xs \<in> set xs \<and> (\<forall>x\<in>set xs. js_le (math_min xs) x)"
proof -
  obtain y ys where xs: "xs = y # ys" using assms(1) by (cases xs) auto
  have y: "y \<noteq> NaN" "NaN \<notin> set ys" using assms(2) xs by auto
  have "min2 PosInf y = y" using y(1) by (cases y) (simp_all add: min2_def)
  then have "math_min xs = foldl min2 y ys" by (simp add: math_min_def xs)
  with foldl_min2_least [OF y] show ?thesis by (simp add: xs)
qed

lemma math_max_NaN: "NaN \<in> set xs \<Longrightarrow> math_max xs = NaN"
  by (simp add: math_max_def foldl_max2_has_NaN)

lemma math_min_NaN: "NaN \<in> set xs \<Longrightarrow> math_min xs = NaN"
  by (simp add: math_min_def foldl_min2_has_NaN)

lemma volume_sum_finite:
  "map bar_volume chunk = map Num vs \<Longrightarrow>
   foldl (\<lambda>sum b. js_add sum (bar_volume b)) (Num a) chunk = Num (a + sum_list vs)"
proof (induction chunk arbitrary: a vs)
  case Nil
  then show ?case by simp
next
  case (Cons b chunk)
  then obtain v vs' where vs: "vs = v # vs'" "bar_volume b = Num v"
    "map bar_volume chunk = map Num vs'"
    by (cases vs) auto
  from Cons.IH [OF vs(3), of "a + v"] show ?case
    by (simp add: vs add.assoc)
qed


lemma chunk_facts:
  assumes "k < (length bars + 3) div 4"
  shows "1 \<le> length (take 4 (drop (4 * k) bars))"
    and "length (take 4 (drop (4 * k) bars)) \<le> 4"
    and "k + 1 < (length bars + 3) div 4 \<Longrightarrow> length (take 4 (drop (4 * k) bars)) = 4"
  using assms by simp_all

text \<open>
  C5.  Aggregating \<open>n\<close> hourly bars yields \<open>ceil(n/4)\<close> bars.  The groups are the
  consecutive slices of four bars in the original order (together they are the input);
  every group has one to four members and only the last may have fewer than four.  The
  bar of a group takes its timestamp and open from the first member, its close from the
  last, its high from \<open>Math.max\<close> and its low from \<open>Math.min\<close> over the group (the
  greatest and the least member when no value is \<open>NaN\<close>, and \<open>NaN\<close> otherwise), and
  its volume from adding the volumes up from 0 (their sum when they are finite).
\<close>

theorem aggregateToH4_groups:
  "int (length (aggregateToH4 bars)) = \<lceil>real (length bars) / 4\<rceil> \<and>
   concat (map (\<lambda>k. take 4 (drop (4 * k) bars)) [0..<length (aggregateToH4 bars)]) = bars \<and>
   (\<forall>k < length (aggregateToH4 bars).
      let grp = take 4 (drop (4 * k) bars); out = aggregateToH4 bars ! k
      in 1 \<le> length grp \<and> length grp \<le> 4 \<and>
         (k + 1 < length (aggregateToH4 bars) \<longrightarrow> length grp = 4) \<and>
         bar_timestamp out = bar_timestamp (hd grp) \<and>
         bar_open out = bar_open (hd grp) \<and>
         bar_close out = bar_close (last grp) \<and>
         bar_high out = math_max (map bar_high grp) \<and>
         (NaN \<notin> bar_high ` set grp \<longrightarrow>
            bar_high out \<in> bar_high ` set grp \<and>
            (\<forall>b\<in>set grp. js_le (bar_high b) (bar_high out))) \<and>
         (NaN \<in> bar_high ` set grp \<longrightarrow> bar_high out = NaN) \<and>
         bar_low out = math_min (map bar_low grp) \<and>
         (NaN \<notin> bar_low ` set grp \<longrightarrow>
            bar_low out \<in> bar_low ` set grp \<and>
            (\<forall>b\<in>set grp. js_le (bar_low out) (bar_low b))) \<and>
         (NaN \<in> bar_low ` set grp \<longrightarrow> bar_low out = NaN) \<and>
         bar_volume out = foldl js_add (Num 0) (map bar_volume grp) \<and>
         (\<forall>vs. map bar_volume grp = map Num vs \<longrightarrow> bar_volume out = Num (sum_list vs)))"
proof -
  let ?n = "(length bars + 3) div 4"
  have len: "length (aggregateToH4 bars) = ?n"
    by (simp add: aggregateToH4_eq)
  have ceil: "int (length (aggregateToH4 bars)) = \<lceil>real (length bars) / 4\<rceil>"
    by (simp add: len ceil_quarter)
  have "length bars \<le> 4 * ?n" by linarith
  then have part: "concat (map (\<lambda>k. take 4 (drop (4 * k) bars)) [0..<length (aggregateToH4 bars)]) = bars"
    by (simp add: len concat_chunks)
  have grp: "let grp = take 4 (drop (4 * k) bars); out = aggregateToH4 bars ! k
      in 1 \<le> length grp \<and> length grp \<le> 4 \<and>
         (k + 1 < length (aggregateToH4 bars) \<longrightarrow> length grp = 4) \<and>
         bar_timestamp out = bar_timestamp (hd grp) \<and>
         bar_open out = bar_open (hd grp) \<and>
         bar_close out = bar_close (last grp) \<and>
         bar_high out = math_max (map bar_high grp) \<and>
         (NaN \<notin> bar_high ` set grp \<longrightarrow>
            bar_high out \<in> bar_high ` set grp \<and>
            (\<forall>b\<in>set grp. js_le (bar_high b) (bar_high out))) \<and>
         (NaN \<in> bar_high ` set grp \<longrightarrow> bar_high out = NaN) \<and>
         bar_low out = math_min (map bar_low grp) \<and>
         (NaN \<notin> bar_low ` set grp \<longrightarrow>
            bar_low out \<in> bar_low ` set grp \<and>
            (\<forall>b\<in>set grp. js_le (bar_low out) (bar_low b))) \<and>
         (NaN \<in> bar_low ` set grp \<longrightarrow> bar_low out = NaN) \<and>
         bar_volume out = foldl js_add (Num 0) (map bar_volume grp) \<and>
         (\<forall>vs. map bar_volume grp = map Num vs \<longrightarrow> bar_volume out = Num (sum_list vs))"
    if k: "k < length (aggregateToH4 bars)" for k
  proof -
    define grp where "grp = take 4 (drop (4 * k) bars)"
    have k': "k < ?n" using k len by simp
    have out: "aggregateToH4 bars ! k = aggregate_chunk grp"
      using k' by (simp add: aggregateToH4_eq grp_def)
    have sz: "1 \<le> length grp" "length grp \<le> 4"
      "k + 1 < length (aggregateToH4 bars) \<longrightarrow> length grp = 4"
      using chunk_facts [OF k'] unfolding grp_def len by blast+
    have ne: "grp \<noteq> []" using sz(1) by auto
    have ends: "grp ! 0 = hd grp" "grp ! (length grp - 1) = last grp"
      using ne by (simp_all add: hd_conv_nth last_conv_nth)
    have hi: "NaN \<notin> bar_high ` set grp \<longrightarrow>
            math_max (map bar_high grp) \<in> bar_high ` set grp \<and>
            (\<forall>b\<in>set grp. js_le (bar_high b) (math_max (map bar_high grp)))"
      using math_max_greatest [of "map bar_high grp"] ne by simp
    have hi': "NaN \<in> bar_high ` set grp \<longrightarrow> math_max (map bar_high grp) = NaN"
      using math_max_NaN [of "map bar_high grp"] by simp
    have lo: "NaN \<notin> bar_low ` set grp \<longrightarrow>
            math_min (map bar_low grp) \<in> bar_low ` set grp \<and>
            (\<forall>b\<in>set grp. js_le (math_min (map bar_low grp)) (bar_low b))"
      using math_min_least [of "map bar_low grp"] ne by simp
    have lo': "NaN \<in> bar_low ` set grp \<longrightarrow> math_min (map bar_low grp) = NaN"
      using math_min_NaN [of "map bar_low grp"] by simp
    have vol: "foldl (\<lambda>sum b. js_add sum (bar_volume b)) (Num 0) grp =
                 foldl js_add (Num 0) (map bar_volume grp)"
      by (simp add: foldl_map)
    have vol': "\<forall>vs. map bar_volume grp = map Num vs \<longrightarrow>
                 foldl (\<lambda>sum b. js_add sum (bar_volume b)) (Num 0) grp = Num (sum_list vs)"
      using volume_sum_finite [of grp _ 0] by simp
    show ?thesis
      unfolding Let_def grp_def [symmetric] out
      using sz ends hi hi' lo lo' vol vol'
      by (simp add: aggregate_chunk_def)
  qed
  from ceil part grp show ?thesis by blast
qed

theorem aggregateToH4_groups_witness:
  "length (aggregateToH4 five_hours) = 2 \<and>
   bar_volume (aggregateToH4 five_hours ! 0) = Num 4600 \<and>
   bar_high (aggregateToH4 five_hours ! 0) = Num 4530 \<and>
   bar_volume (aggregateToH4 five_hours ! 1) = Num 1400"
proof -
  have len: "length (aggregateToH4 five_hours) = 2"
    using aggregateToH4_groups [of five_hours] by (simp add: five_hours_def)
  have g0: "take 4 (drop (4 * 0) five_hours) =
      [hour_bar 4500 4510 4490 4505 1000, hour_bar 4505 4515 4495 4510 1100,
       hour_bar 4510 4525 4500 4515 1200, hour_bar 4515 4530 4505 4520 1300]"
    and g1: "take 4 (drop (4 * 1) five_hours) = [hour_bar 4520 4540 4510 4525 1400]"
    by (simp_all add: five_hours_def)
  have "0 < length (aggregateToH4 five_hours)" "1 < length (aggregateToH4 five_hours)"
    using len by simp_all
  with aggregateToH4_groups [of five_hours]
  have "bar_volume (aggregateToH4 five_hours ! 0) =
          foldl js_add (Num 0) (map bar_volume (take 4 (drop (4 * 0) five_hours)))"
       "bar_high (aggregateToH4 five_hours ! 0) =
          math_max (map bar_high (take 4 (drop (4 * 0) five_hours)))"
       "bar_volume (aggregateToH4 five_hours ! 1) =
          foldl js_add (Num 0) (map bar_volume (take 4 (drop (4 * 1) five_hours)))"
    unfolding Let_def by blast+
  then show ?thesis
    unfolding g0 g1 using len
    by (simp add: hour_bar_def math_max_def max2_def)
qed

section \<open>The quote cache: facts\<close>

lemma cache_lookup_absent:
  "priceCache s k = None \<Longrightarrow> cache_lookup k s = (None, s)"
  by (simp add: cache_lookup_def)

lemma cache_lookup_fresh:
  "priceCache s k = Some e \<Longrightarrow> clock s (clock_reads s) - cached_timestamp e < 30000 \<Longrightarrow>
   cache_lookup k s = (Some (data e), s\<lparr>clock_reads := Suc (clock_reads s)\<rparr>)"
  by (simp add: cache_lookup_def Date_now_def CACHE_TTL_def)

lemma cache_lookup_stale:
  "priceCache s k = Some e \<Longrightarrow> \<not> clock s (clock_reads s) - cached_timestamp e < 30000 \<Longrightarrow>
   cache_lookup k s = (None, s\<lparr>clock_reads := Suc (clock_reads s)\<rparr>)"
  by (simp add: cache_lookup_def Date_now_def CACHE_TTL_def)

lemma cache_lookup_frame:
  "cache_lookup k s = (r, s0) \<Longrightarrow>
   priceCache s0 = priceCache s \<and> fetches s0 = fetches s \<and> events s0 = events s \<and>
   network s0 = network s \<and> clock s0 = clock s"
  by (auto simp: cache_lookup_def Date_now_def split: option.splits if_splits)

lemma makeRequest_frame_pair:
  "makeRequest s = (r, s') \<Longrightarrow>
   priceCache s' = priceCache s \<and> clock s' = clock s \<and> clock_reads s' = clock_reads s \<and>
   network s' = network s \<and> fetches s < fetches s' \<and> fetches s' \<le> fetches s + 3"
  using makeRequest_frame [of s] by simp

lemma data_lines_empty: "data_lines [] = []"
  by (simp add: data_lines_def)

text \<open>What a call that misses the cache does, by the outcome of the request.\<close>

lemma getQuote_hit:
  "cache_lookup symb s = (Some q, s0) \<Longrightarrow> getQuote symb s = (Inr q, s0)"
  by (simp add: getQuote_def)

lemma getQuote_invalid:
  "cache_lookup symb s = (None, s0) \<Longrightarrow> SYMBOL_MAP symb = None \<Longrightarrow>
   getQuote symb s = (Inl (Error (''Invalid symbol: '' @ symb)), s0)"
  by (simp add: getQuote_def)

lemma getQuote_transport_error:
  "cache_lookup symb s = (None, s0) \<Longrightarrow> SYMBOL_MAP symb = Some d \<Longrightarrow>
   makeRequest (snd (Date_now s0)) = (Inl e, s2) \<Longrightarrow>
   getQuote symb s = (Inl e, s2)"
  by (simp add: getQuote_def case_prod_beta Let_def)

lemma getQuote_no_data:
  "cache_lookup symb s = (None, s0) \<Longrightarrow> SYMBOL_MAP symb = Some d \<Longrightarrow>
   makeRequest (snd (Date_now s0)) = (Inr response, s2) \<Longrightarrow>
   data_lines response = [] \<Longrightarrow>
   getQuote symb s =
     (Inl (Error ((if response = [] then ''No quote data available for ''
                   else ''No recent data available for '') @ symb)), s2)"
  by (simp add: getQuote_def case_prod_beta Let_def)

lemma getQuote_miss:
  "cache_lookup symb s = (None, s0) \<Longrightarrow> SYMBOL_MAP symb = Some d \<Longrightarrow>
   makeRequest (snd (Date_now s0)) = (Inr response, s2) \<Longrightarrow>
   data_lines response \<noteq> [] \<Longrightarrow>
   getQuote symb s =
     (Inr (parse_quote symb (last (data_lines response)) (clock s2 (clock_reads s2))),
      s2\<lparr>clock_reads := Suc (Suc (clock_reads s2)),
         priceCache := (priceCache s2)
           (symb \<mapsto> \<lparr>data = parse_quote symb (last (data_lines response))
                                (clock s2 (clock_reads s2)),
                     cached_timestamp = clock s2 (Suc (clock_reads s2))\<rparr>)\<rparr>)"
proof -
  assume a: "cache_lookup symb s = (None, s0)" "SYMBOL_MAP symb = Some d"
    "makeRequest (snd (Date_now s0)) = (Inr response, s2)" "data_lines response \<noteq> []"
  have ne: "response \<noteq> []" using a(4) data_lines_empty by auto
  have l: "data_lines response ! (length (data_lines response) - 1) = last (data_lines response)"
    using a(4) by (simp add: last_conv_nth)
  show ?thesis
    using a ne l
    by (simp add: getQuote_def case_prod_beta Let_def) (simp add: Date_now_def)
qed

lemma Date_now_frame:
  "priceCache (snd (Date_now s)) = priceCache s \<and> fetches (snd (Date_now s)) = fetches s \<and>
   events (snd (Date_now s)) = events s \<and> network (snd (Date_now s)) = network s \<and>
   clock (snd (Date_now s)) = clock s \<and> clock_reads (snd (Date_now s)) = Suc (clock_reads s)"
  by (simp add: Date_now_def)

lemma getQuote_frame:
  "(\<forall>k. k \<noteq> symb \<longrightarrow> priceCache (snd (getQuote symb s)) k = priceCache s k) \<and>
   (isl (fst (getQuote symb s)) \<longrightarrow> priceCache (snd (getQuote symb s)) = priceCache s)"
proof -
  obtain r0 s0 where cl: "cache_lookup symb s = (r0, s0)" by (cases "cache_lookup symb s")
  have c0: "priceCache s0 = priceCache s" using cache_lookup_frame [OF cl] by simp
  show ?thesis
  proof (cases r0)
    case (Some q)
    with cl c0 show ?thesis by (simp add: getQuote_hit)
  next
    case None
    note cl = cl [unfolded None]
    show ?thesis
    proof (cases "SYMBOL_MAP symb")
      case None
      with cl c0 show ?thesis by (simp add: getQuote_invalid)
    next
      case (Some d)
      obtain r s2 where mr: "makeRequest (snd (Date_now s0)) = (r, s2)"
        by (cases "makeRequest (snd (Date_now s0))")
      have c2: "priceCache s2 = priceCache s"
        using makeRequest_frame_pair [OF mr] Date_now_frame [of s0] c0 by simp
      show ?thesis
      proof (cases r)
        case (Inl e)
        with cl Some mr c2 show ?thesis by (simp add: getQuote_transport_error)
      next
        case (Inr response)
        note mr = mr [unfolded Inr]
        show ?thesis
        proof (cases "data_lines response = []")
          case True
          from getQuote_no_data [OF cl Some mr True] c2 show ?thesis by simp
        next
          case False
          from getQuote_miss [OF cl Some mr False] c2 show ?thesis by simp
        qed
      qed
    qed
  qed
qed

lemma trim_blank: "(\<forall>c\<in>set s. is_ws c) \<Longrightarrow> trim s = []"
  by (auto simp: trim_def dest: set_dropWhileD)

lemma js_split_pieces: "w \<in> set (js_split sep s) \<Longrightarrow> set w \<subseteq> set s"
proof (induction s arbitrary: w)
  case Nil
  then show ?case by simp
next
  case (Cons c cs)
  show ?case
  proof (cases "c = sep")
    case True
    with Cons show ?thesis by auto
  next
    case False
    obtain v vs where sp: "js_split sep cs = v # vs"
      using js_split_nonempty [of sep cs] by (cases "js_split sep cs") auto
    with Cons.prems False have "w = c # v \<or> w \<in> set vs" by simp
    then show ?thesis
    proof
      assume "w = c # v"
      moreover have "set v \<subseteq> set cs" using Cons.IH [of v] sp by simp
      ultimately show ?thesis by auto
    next
      assume "w \<in> set vs"
      then have "set w \<subseteq> set cs" using Cons.IH [of w] sp by simp
      then show ?thesis by auto
    qed
  qed
qed

lemma js_split_append_first:
  "sep \<notin> set h \<Longrightarrow>
   js_split sep (h @ r) = (h @ hd (js_split sep r)) # tl (js_split sep r)"
proof (induction h)
  case Nil
  then show ?case using js_split_nonempty [of sep r] by simp
next
  case (Cons c h)
  then show ?case by auto
qed

text \<open>
  A response that is empty, blank, or a header line followed by nothing but white space
  has no data line.
\<close>

lemma data_lines_header_only:
  assumes "newline \<notin> set header" "\<forall>c\<in>set rest. is_ws c"
  shows "data_lines (header @ rest) = []"
proof -
  have "drop 1 (js_split newline (header @ rest)) = tl (js_split newline rest)"
    by (simp add: js_split_append_first [OF assms(1)] drop_Suc)
  moreover have "trim w = []" if "w \<in> set (tl (js_split newline rest))" for w
  proof -
    from that have "w \<in> set (js_split newline rest)" by (rule list.set_sel(2) [rotated]) (simp add: js_split_nonempty)
    then have "set w \<subseteq> set rest" by (rule js_split_pieces)
    with assms(2) show ?thesis by (intro trim_blank) auto
  qed
  ultimately show ?thesis
    by (simp add: data_lines_def truthy_def filter_empty_conv)
qed

lemma quote_csv_lines:
  "data_lines quote_csv =
     [''1609502400000123456,1609502400000000000,1,1,1234,A,B,0,0,0,0,0,0,4500000000000,4502000000000,10,15'']"
  by (simp add: quote_csv_def data_lines_def truthy_def trim_def is_ws_def)

lemma parseFloat_bid_example: "parseFloat ''4500000000000'' = Num 4500000000000"
  by (simp add: parseFloat_def parse_sign_def is_ws_def is_digit_def digits_val_def digit_val_def
      parse_exponent_def scale10_def)

lemma parseInt_ts_example: "parseInt ''1609502400000000000'' = Num 1609502400000000000"
  by (simp add: parseInt_def parse_sign_def is_ws_def is_digit_def digits_val_def digit_val_def)

lemma quote_fields:
  "js_split comma ''1609502400000123456,1609502400000000000,1,1,1234,A,B,0,0,0,0,0,0,4500000000000,4502000000000,10,15''
   = [''1609502400000123456'', ''1609502400000000000'', ''1'', ''1'', ''1234'', ''A'', ''B'', ''0'',
      ''0'', ''0'', ''0'', ''0'', ''0'', ''4500000000000'', ''4502000000000'', ''10'', ''15'']"
  by simp

lemma parseFloat_ask_example: "parseFloat ''4502000000000'' = Num 4502000000000"
  by (simp add: parseFloat_def parse_sign_def is_ws_def is_digit_def digits_val_def digit_val_def
      parse_exponent_def scale10_def)

lemma parse_quote_example:
  "parse_quote ''ES'' ''1609502400000123456,1609502400000000000,1,1,1234,A,B,0,0,0,0,0,0,4500000000000,4502000000000,10,15'' 1609502410000
   = \<lparr>symbol = ''ES'', price = Num 4501, bid = Num 4500, ask = Num 4502,
      timestamp = DateAt 1609502400000, dataAge = Num 10000\<rparr>"
  unfolding parse_quote_def quote_fields
  by (simp add: js_index_eq to_string_def parseFloat_bid_example parseFloat_ask_example
      parseInt_ts_example js_sub_def time_clip_def maxTime_def)

lemma digit_not_ws: "is_digit c \<Longrightarrow> \<not> is_ws c"
  by (auto simp: is_digit_def is_ws_def)

lemma digit_not_sign: "is_digit c \<Longrightarrow> c \<noteq> CHR ''-'' \<and> c \<noteq> CHR ''+'' \<and> c \<noteq> CHR ''I''"
  by (auto simp: is_digit_def)

lemma parseFloat_digits:
  assumes "ds \<noteq> []" "\<forall>c\<in>set ds. is_digit c"
  shows "parseFloat ds = Num (real_of_int (digits_val ds))"
proof -
  obtain c cs where ds: "ds = c # cs" using assms(1) by (cases ds) auto
  have c: "is_digit c" using assms(2) ds by simp
  have ws: "dropWhile is_ws ds = ds" using digit_not_ws [OF c] ds by simp
  have sg: "parse_sign ds = (False, ds)"
    using digit_not_sign [OF c] by (simp add: parse_sign_def ds)
  have inf: "take 8 ds \<noteq> ''Infinity''"
    using digit_not_sign [OF c] by (auto simp: ds)
  have tw: "takeWhile is_digit ds = ds" "dropWhile is_digit ds = []"
    using assms(2) by simp_all
  show ?thesis
    using assms(1)
    by (simp add: parseFloat_def ws sg inf tw parse_exponent_def scale10_def)
qed

lemma digits_val_snoc: "digits_val (ds @ [c]) = 10 * digits_val ds + digit_val c"
  by (simp add: digits_val_def)

lemma digit_char:
  assumes "d < 10"
  shows "is_digit (char_of (48 + d))" and "digit_val (char_of (48 + d)) = int d"
proof -
  have "(48 + d) mod 256 = 48 + d" using assms by simp
  then have n: "(of_char (char_of (48 + d)) :: nat) = 48 + d" by (simp add: of_char_of)
  have "(of_char (char_of (48 + d)) :: int) = int (of_char (char_of (48 + d)))"
    by (simp only: of_nat_of_char)
  with n have i: "(of_char (char_of (48 + d)) :: int) = 48 + int d" by simp
  show "is_digit (char_of (48 + d))"
    using assms n by (simp add: is_digit_def)
  show "digit_val (char_of (48 + d)) = int d"
    using i by (simp add: digit_val_def)
qed

lemma show_nat_digits:
  "show_nat n \<noteq> [] \<and> (\<forall>c\<in>set (show_nat n). is_digit c) \<and> digits_val (show_nat n) = int n"
proof (induction n rule: show_nat.induct)
  case (1 n)
  show ?case
  proof (cases "n < 10")
    case True
    then show ?thesis
      using digit_char [OF True]
      by (subst (1 2 3) show_nat.simps) (simp add: digits_val_def)
  next
    case False
    have m: "n mod 10 < 10" by simp
    have e: "10 * int (n div 10) + int (n mod 10) = int n"
      by (simp add: zdiv_int zmod_int)
    from "1.IH" [OF False] digit_char [OF m] False e
    show ?thesis
      by (subst (1 2 3) show_nat.simps) (simp add: digits_val_snoc)
  qed
qed

lemma parseFloat_show_nat: "parseFloat (show_nat n) = Num (real n)"
  using parseFloat_digits [of "show_nat n"] show_nat_digits [of n] by simp

lemma parseFloat_minus_digits:
  assumes "ds \<noteq> []" "\<forall>c\<in>set ds. is_digit c"
  shows "parseFloat (CHR ''-'' # ds) = Num (- real_of_int (digits_val ds))"
proof -
  obtain c cs where ds: "ds = c # cs" using assms(1) by (cases ds) auto
  have c: "is_digit c" using assms(2) ds by simp
  have ws: "dropWhile is_ws (CHR ''-'' # ds) = CHR ''-'' # ds"
    by (simp add: is_ws_def)
  have sg: "parse_sign (CHR ''-'' # ds) = (True, ds)"
    by (simp add: parse_sign_def)
  have inf: "take 8 ds \<noteq> ''Infinity''"
    using digit_not_sign [OF c] by (auto simp: ds)
  have tw: "takeWhile is_digit ds = ds" "dropWhile is_digit ds = []"
    using assms(2) by simp_all
  show ?thesis
    using assms(1)
    unfolding parseFloat_def ws sg
    by (simp add: inf tw parse_exponent_def scale10_def)
qed

text \<open>\<open>parseFloat\<close> reads back every integer written in decimal, with its sign.\<close>

lemma parseFloat_show_int: "parseFloat (show_int p) = Num (real_of_int p)"
proof (cases "p < 0")
  case True
  have "parseFloat (CHR ''-'' # show_nat (nat (- p))) =
          Num (- real_of_int (digits_val (show_nat (nat (- p)))))"
    using show_nat_digits [of "nat (- p)"] by (intro parseFloat_minus_digits) simp_all
  also have "digits_val (show_nat (nat (- p))) = - p"
    using show_nat_digits [of "nat (- p)"] True by simp
  finally show ?thesis using True by (simp add: show_int_def)
next
  case False
  then show ?thesis by (simp add: show_int_def parseFloat_show_nat)
qed

lemma SYMBOL_MAP_ES: "SYMBOL_MAP ''ES'' = Some ''ES.c.0''"
  by (simp add: SYMBOL_MAP_def)

lemma getQuote_quote_server:
  "getQuote ''ES'' quote_server =
     (Inr es_quote,
      quote_server\<lparr>fetches := 1, events := [Fetched], clock_reads := 3,
        priceCache := [''ES'' \<mapsto> \<lparr>data = es_quote, cached_timestamp = 1609502410000\<rparr>]\<rparr>)"
proof -
  have cl: "cache_lookup ''ES'' quote_server = (None, quote_server)"
    by (rule cache_lookup_absent) (simp add: quote_server_def)
  have mr: "makeRequest (snd (Date_now quote_server)) =
              (Inr quote_csv, quote_server\<lparr>clock_reads := 1, fetches := 1, events := [Fetched]\<rparr>)"
    by (subst makeRequest_first [of _ quote_csv])
       (simp_all add: Date_now_def quote_server_def attempt_result_def response_ok_def)
  have ne: "data_lines quote_csv \<noteq> []" by (simp add: quote_csv_lines)
  show ?thesis
    by (subst getQuote_miss [OF cl SYMBOL_MAP_ES mr ne])
       (simp add: quote_csv_lines parse_quote_example es_quote_def quote_server_def)
qed

lemma getQuote_stale_offline:
  "getQuote ''ES'' stale_offline =
     (Inl (Error ''DataBento API request failed after 3 attempts: TypeError: fetch failed''),
      stale_offline\<lparr>clock_reads := 2, fetches := 3, events := [Fetched, Slept 1000, Fetched, Slept 2000, Fetched]\<rparr>)"
proof -
  have cl: "cache_lookup ''ES'' stale_offline = (None, stale_offline\<lparr>clock_reads := 1\<rparr>)"
    by (subst cache_lookup_stale [of _ _ "\<lparr>data = es_quote, cached_timestamp = 1609502410000\<rparr>"])
       (simp_all add: stale_offline_def)
  have mr: "makeRequest (snd (Date_now (stale_offline\<lparr>clock_reads := 1\<rparr>))) =
              (Inl (Error ''DataBento API request failed after 3 attempts: TypeError: fetch failed''),
               stale_offline\<lparr>clock_reads := 2, fetches := 3, events := [Fetched, Slept 1000, Fetched, Slept 2000, Fetched]\<rparr>)"
    by (subst makeRequest_exhausted [of _ "''TypeError: fetch failed''" "''TypeError: fetch failed''"
          "''TypeError: fetch failed''"])
       (simp_all add: Date_now_def stale_offline_def attempt_result_def)
  show ?thesis
    by (rule getQuote_transport_error [OF cl SYMBOL_MAP_ES mr])
qed

lemma getQuote_stale_miss:
  assumes e: "priceCache s symb = Some e"
    and stale: "\<not> clock s (clock_reads s) - cached_timestamp e < 30000"
    and sym: "SYMBOL_MAP symb = Some d"
  shows "fetches s < fetches (snd (getQuote symb s))"
    and "fetches (snd (getQuote symb s)) \<le> fetches s + 3"
    and "attempt_result (network s (fetches s)) = Inr rsp \<Longrightarrow>
           fetches (snd (getQuote symb s)) = fetches s + 1"
    and "fst (getQuote symb s) = Inr q \<Longrightarrow>
           priceCache (snd (getQuote symb s)) =
             (priceCache s)(symb \<mapsto> \<lparr>data = q, cached_timestamp = clock s (clock_reads s + 3)\<rparr>)"
proof -
  let ?s0 = "s\<lparr>clock_reads := Suc (clock_reads s)\<rparr>"
  let ?s1 = "snd (Date_now ?s0)"
  have cl: "cache_lookup symb s = (None, ?s0)"
    using e stale by (rule cache_lookup_stale)
  have s1: "fetches ?s1 = fetches s" "network ?s1 = network s" "priceCache ?s1 = priceCache s"
    "clock ?s1 = clock s" "clock_reads ?s1 = clock_reads s + 2"
    by (simp_all add: Date_now_def)
  obtain r s2 where mr: "makeRequest ?s1 = (r, s2)" by (cases "makeRequest ?s1")
  note fr = makeRequest_frame_pair [OF mr]
  have s2: "fetches s < fetches s2" "fetches s2 \<le> fetches s + 3" "priceCache s2 = priceCache s"
    "clock s2 = clock s" "clock_reads s2 = clock_reads s + 2"
    using fr s1 by simp_all
  have first: "fetches s2 = fetches s + 1"
    if "attempt_result (network s (fetches s)) = Inr rsp"
  proof -
    from that have "attempt_result (network ?s1 (fetches ?s1)) = Inr rsp" by (simp add: s1)
    from makeRequest_first [OF this] mr show ?thesis by (auto simp: s1)
  qed
  have res: "snd (getQuote symb s) = s2 \<and> isl (fst (getQuote symb s)) \<or>
             (\<exists>q. fst (getQuote symb s) = Inr q \<and>
                  snd (getQuote symb s) =
                    s2\<lparr>clock_reads := Suc (Suc (clock_reads s2)),
                       priceCache := (priceCache s2)
                         (symb \<mapsto> \<lparr>data = q,
                                   cached_timestamp = clock s2 (Suc (clock_reads s2))\<rparr>)\<rparr>)"
  proof (cases r)
    case (Inl err)
    from getQuote_transport_error [OF cl sym mr [unfolded Inl]] show ?thesis by simp
  next
    case (Inr response)
    show ?thesis
    proof (cases "data_lines response = []")
      case True
      from getQuote_no_data [OF cl sym mr [unfolded Inr] True] show ?thesis by simp
    next
      case False
      from getQuote_miss [OF cl sym mr [unfolded Inr] False] show ?thesis by simp
    qed
  qed
  from res s2 show "fetches s < fetches (snd (getQuote symb s))"
    and "fetches (snd (getQuote symb s)) \<le> fetches s + 3"
    by auto
  from res first show "attempt_result (network s (fetches s)) = Inr rsp \<Longrightarrow>
           fetches (snd (getQuote symb s)) = fetches s + 1"
    by auto
  from res s2 show "fst (getQuote symb s) = Inr q \<Longrightarrow>
           priceCache (snd (getQuote symb s)) =
             (priceCache s)(symb \<mapsto> \<lparr>data = q, cached_timestamp = clock s (clock_reads s + 3)\<rparr>)"
    by (auto simp: eval_nat_numeral)
qed

lemma getQuote_stale_online:
  "fst (getQuote ''ES'' stale_online) = Inr es_quote"
proof -
  have cl: "cache_lookup ''ES'' stale_online = (None, stale_online\<lparr>clock_reads := 1\<rparr>)"
    by (subst cache_lookup_stale [of _ _ "\<lparr>data = es_quote, cached_timestamp = 1609502370000\<rparr>"])
       (simp_all add: stale_online_def)
  have mr: "makeRequest (snd (Date_now (stale_online\<lparr>clock_reads := 1\<rparr>))) =
              (Inr quote_csv, stale_online\<lparr>clock_reads := 2, fetches := 1, events := [Fetched]\<rparr>)"
    by (subst makeRequest_first [of _ quote_csv])
       (simp_all add: Date_now_def stale_online_def attempt_result_def response_ok_def)
  have ne: "data_lines quote_csv \<noteq> []" by (simp add: quote_csv_lines)
  show ?thesis
    by (subst getQuote_miss [OF cl SYMBOL_MAP_ES mr ne])
       (simp add: quote_csv_lines parse_quote_example es_quote_def stale_online_def)
qed

text \<open>
  C3 (amended).  When the cache holds an entry for the symbol that was stored less than
  30000 ms before the reading of the clock, \<open>getQuote\<close> returns the quote of that entry;
  the state changes by that one reading only: no \<open>fetch\<close>, no sleep, the cache as it
  was.  When the entry is 30000 ms old or older and the symbol is ES or NQ, the call
  sends one request through the transport, which makes between one and three \<open>fetch\<close>
  attempts (exactly one when the first attempt succeeds); if the call returns a quote,
  the entry for the symbol is overwritten with that quote and the time of storing, and
  if the call throws, the cache is left as it was.
\<close>

theorem getQuote_cache_ttl:
  "(priceCache s symb = Some e \<and> clock s (clock_reads s) - cached_timestamp e < 30000 \<longrightarrow>
      getQuote symb s = (Inr (data e), s\<lparr>clock_reads := Suc (clock_reads s)\<rparr>)) \<and>
   (priceCache s symb = Some e \<and> \<not> clock s (clock_reads s) - cached_timestamp e < 30000 \<and>
    SYMBOL_MAP symb = Some d \<longrightarrow>
      fetches s < fetches (snd (getQuote symb s)) \<and>
      fetches (snd (getQuote symb s)) \<le> fetches s + 3 \<and>
      (attempt_result (network s (fetches s)) = Inr rsp \<longrightarrow>
         fetches (snd (getQuote symb s)) = fetches s + 1) \<and>
      (fst (getQuote symb s) = Inr q \<longrightarrow>
         priceCache (snd (getQuote symb s)) =
           (priceCache s)(symb \<mapsto> \<lparr>data = q, cached_timestamp = clock s (clock_reads s + 3)\<rparr>)) \<and>
      (isl (fst (getQuote symb s)) \<longrightarrow> priceCache (snd (getQuote symb s)) = priceCache s))"
proof -
  have fresh: "getQuote symb s = (Inr (data e), s\<lparr>clock_reads := Suc (clock_reads s)\<rparr>)"
    if "priceCache s symb = Some e" "clock s (clock_reads s) - cached_timestamp e < 30000"
    using that by (intro getQuote_hit cache_lookup_fresh)
  have stale: "fetches s < fetches (snd (getQuote symb s)) \<and>
      fetches (snd (getQuote symb s)) \<le> fetches s + 3 \<and>
      (attempt_result (network s (fetches s)) = Inr rsp \<longrightarrow>
         fetches (snd (getQuote symb s)) = fetches s + 1) \<and>
      (fst (getQuote symb s) = Inr q \<longrightarrow>
         priceCache (snd (getQuote symb s)) =
           (priceCache s)(symb \<mapsto> \<lparr>data = q, cached_timestamp = clock s (clock_reads s + 3)\<rparr>)) \<and>
      (isl (fst (getQuote symb s)) \<longrightarrow> priceCache (snd (getQuote symb s)) = priceCache s)"
    if "priceCache s symb = Some e" "\<not> clock s (clock_reads s) - cached_timestamp e < 30000"
      "SYMBOL_MAP symb = Some d"
    using getQuote_stale_miss [OF that] getQuote_frame [of symb s] by blast
  from fresh stale show ?thesis by blast
qed

text \<open>
  An entry 29999 ms old is served from the cache although the network is down; an entry
  40 s old is replaced after one fetch against the example server.
\<close>

theorem getQuote_cache_ttl_witness:
  "getQuote ''ES'' fresh_offline = (Inr es_quote, fresh_offline\<lparr>clock_reads := 1\<rparr>) \<and>
   fetches (snd (getQuote ''ES'' fresh_offline)) = 0 \<and>
   priceCache (snd (getQuote ''ES'' fresh_offline)) = priceCache fresh_offline \<and>
   fetches (snd (getQuote ''ES'' stale_online)) = 1 \<and>
   priceCache (snd (getQuote ''ES'' stale_online)) ''ES'' =
     Some \<lparr>data = es_quote, cached_timestamp = 1609502410000\<rparr>"
proof -
  have "priceCache fresh_offline ''ES'' =
          Some \<lparr>data = es_quote, cached_timestamp = 1609502410000\<rparr> \<and>
        clock fresh_offline (clock_reads fresh_offline)
          - cached_timestamp \<lparr>data = es_quote, cached_timestamp = 1609502410000\<rparr> < 30000"
    by (simp add: fresh_offline_def)
  with getQuote_cache_ttl [of fresh_offline "''ES''"
         "\<lparr>data = es_quote, cached_timestamp = 1609502410000\<rparr>"]
  have "getQuote ''ES'' fresh_offline =
          (Inr (data \<lparr>data = es_quote, cached_timestamp = 1609502410000\<rparr>),
           fresh_offline\<lparr>clock_reads := Suc (clock_reads fresh_offline)\<rparr>)"
    by blast
  then have fresh: "getQuote ''ES'' fresh_offline = (Inr es_quote, fresh_offline\<lparr>clock_reads := 1\<rparr>)"
    "fetches (snd (getQuote ''ES'' fresh_offline)) = 0"
    "priceCache (snd (getQuote ''ES'' fresh_offline)) = priceCache fresh_offline"
    by (simp_all add: fresh_offline_def)
  have "priceCache stale_online ''ES'' =
          Some \<lparr>data = es_quote, cached_timestamp = 1609502370000\<rparr> \<and>
        \<not> clock stale_online (clock_reads stale_online)
          - cached_timestamp \<lparr>data = es_quote, cached_timestamp = 1609502370000\<rparr> < 30000 \<and>
        SYMBOL_MAP ''ES'' = Some ''ES.c.0'' \<and>
        attempt_result (network stale_online (fetches stale_online)) = Inr quote_csv"
    by (simp add: stale_online_def SYMBOL_MAP_ES attempt_result_def response_ok_def)
  with getQuote_cache_ttl [of stale_online "''ES''"
         "\<lparr>data = es_quote, cached_timestamp = 1609502370000\<rparr>" "''ES.c.0''" quote_csv es_quote]
    getQuote_stale_online
  have "fetches (snd (getQuote ''ES'' stale_online)) = fetches stale_online + 1"
    "priceCache (snd (getQuote ''ES'' stale_online)) =
       (priceCache stale_online)(''ES'' \<mapsto> \<lparr>data = es_quote,
          cached_timestamp = clock stale_online (clock_reads stale_online + 3)\<rparr>)"
    by blast+
  then have stale: "fetches (snd (getQuote ''ES'' stale_online)) = 1"
    "priceCache (snd (getQuote ''ES'' stale_online)) ''ES'' =
       Some \<lparr>data = es_quote, cached_timestamp = 1609502410000\<rparr>"
    by (simp_all add: stale_online_def)
  from fresh stale show ?thesis by blast
qed

text \<open>
  C3 as stated fails when the refresh does not succeed: with an entry exactly 30000 ms
  old and the network down, the call makes three fetch attempts, not one, throws, and
  the stale entry is still in the cache, not overwritten.
\<close>

theorem getQuote_cache_ttl_counterexample:
  "priceCache stale_offline ''ES'' =
     Some \<lparr>data = es_quote, cached_timestamp = 1609502410000\<rparr> \<and>
   clock stale_offline (clock_reads stale_offline) - 1609502410000 = 30000 \<and>
   isl (fst (getQuote ''ES'' stale_offline)) \<and>
   fetches (snd (getQuote ''ES'' stale_offline)) - fetches stale_offline = 3 \<and>
   priceCache (snd (getQuote ''ES'' stale_offline)) ''ES'' =
     Some \<lparr>data = es_quote, cached_timestamp = 1609502410000\<rparr>"
  by (simp add: getQuote_stale_offline) (simp add: stale_offline_def)

lemma header_only_request:
  "cache_lookup ''ES'' header_only_server = (None, header_only_server) \<and>
   SYMBOL_MAP ''ES'' = Some ''ES.c.0'' \<and>
   makeRequest (snd (Date_now header_only_server)) =
     (Inr (''ts_recv,ts_event,rtype,publisher_id,instrument_id'' @ [newline]),
      header_only_server\<lparr>clock_reads := 1, fetches := 1, events := [Fetched]\<rparr>)"
proof -
  have cl: "cache_lookup ''ES'' header_only_server = (None, header_only_server)"
    by (rule cache_lookup_absent) (simp add: header_only_server_def)
  have mr: "makeRequest (snd (Date_now header_only_server)) =
     (Inr (''ts_recv,ts_event,rtype,publisher_id,instrument_id'' @ [newline]),
      header_only_server\<lparr>clock_reads := 1, fetches := 1, events := [Fetched]\<rparr>)"
    by (subst makeRequest_first [of _ "''ts_recv,ts_event,rtype,publisher_id,instrument_id'' @ [newline]"])
       (simp_all add: Date_now_def header_only_server_def attempt_result_def response_ok_def)
  from cl SYMBOL_MAP_ES mr show ?thesis by blast
qed

lemma stale_offline_request:
  "cache_lookup ''ES'' stale_offline = (None, stale_offline\<lparr>clock_reads := 1\<rparr>) \<and>
   SYMBOL_MAP ''ES'' = Some ''ES.c.0'' \<and>
   makeRequest (snd (Date_now (stale_offline\<lparr>clock_reads := 1\<rparr>))) =
     (Inl (Error ''DataBento API request failed after 3 attempts: TypeError: fetch failed''),
      stale_offline\<lparr>clock_reads := 2, fetches := 3, events := [Fetched, Slept 1000, Fetched, Slept 2000, Fetched]\<rparr>)"
proof -
  have cl: "cache_lookup ''ES'' stale_offline = (None, stale_offline\<lparr>clock_reads := 1\<rparr>)"
    by (subst cache_lookup_stale [of _ _ "\<lparr>data = es_quote, cached_timestamp = 1609502410000\<rparr>"])
       (simp_all add: stale_offline_def)
  have mr: "makeRequest (snd (Date_now (stale_offline\<lparr>clock_reads := 1\<rparr>))) =
              (Inl (Error ''DataBento API request failed after 3 attempts: TypeError: fetch failed''),
               stale_offline\<lparr>clock_reads := 2, fetches := 3, events := [Fetched, Slept 1000, Fetched, Slept 2000, Fetched]\<rparr>)"
    by (subst makeRequest_exhausted [of _ "''TypeError: fetch failed''" "''TypeError: fetch failed''"
          "''TypeError: fetch failed''"])
       (simp_all add: Date_now_def stale_offline_def attempt_result_def)
  from cl SYMBOL_MAP_ES mr show ?thesis by blast
qed

text \<open>
  C9.  A call \<open>getQuote(s)\<close> leaves the cache entry of every other symbol as it was, and
  when it throws it leaves the whole cache as it was, a stale entry for \<open>s\<close> included.
  It throws when the call misses the cache and the transport fails (all retries
  exhausted), and when the response is empty, blank, or a header line followed by
  nothing but white space (the no-data errors).
\<close>

theorem getQuote_cache_frame:
  "(\<forall>k. k \<noteq> symb \<longrightarrow> priceCache (snd (getQuote symb s)) k = priceCache s k) \<and>
   (isl (fst (getQuote symb s)) \<longrightarrow> priceCache (snd (getQuote symb s)) = priceCache s) \<and>
   (cache_lookup symb s = (None, s0) \<and> SYMBOL_MAP symb = Some d \<and>
    makeRequest (snd (Date_now s0)) = (Inl err, s2) \<longrightarrow>
      fst (getQuote symb s) = Inl err) \<and>
   (cache_lookup symb s = (None, s0) \<and> SYMBOL_MAP symb = Some d \<and>
    makeRequest (snd (Date_now s0)) = (Inr (header @ rest), s2) \<and>
    newline \<notin> set header \<and> (\<forall>c\<in>set rest. is_ws c) \<longrightarrow>
      fst (getQuote symb s) =
        Inl (Error ((if header @ rest = [] then ''No quote data available for ''
                     else ''No recent data available for '') @ symb)))"
proof -
  have a: "fst (getQuote symb s) = Inl err"
    if "cache_lookup symb s = (None, s0)" "SYMBOL_MAP symb = Some d"
      "makeRequest (snd (Date_now s0)) = (Inl err, s2)"
    using getQuote_transport_error [OF that] by simp
  have b: "fst (getQuote symb s) =
        Inl (Error ((if header @ rest = [] then ''No quote data available for ''
                     else ''No recent data available for '') @ symb))"
    if "cache_lookup symb s = (None, s0)" "SYMBOL_MAP symb = Some d"
      "makeRequest (snd (Date_now s0)) = (Inr (header @ rest), s2)"
      "newline \<notin> set header" "\<forall>c\<in>set rest. is_ws c"
    using getQuote_no_data [OF that(1,2,3) data_lines_header_only [OF that(4,5)]] by simp
  from getQuote_frame [of symb s] a b show ?thesis by blast
qed

text \<open>
  With a stale entry and the network down, and with a response that has only a header
  line, the call throws and the cache is unchanged.
\<close>

theorem getQuote_cache_frame_witness:
  "fst (getQuote ''ES'' stale_offline) =
     Inl (Error ''DataBento API request failed after 3 attempts: TypeError: fetch failed'') \<and>
   priceCache (snd (getQuote ''ES'' stale_offline)) = priceCache stale_offline \<and>
   fst (getQuote ''ES'' header_only_server) = Inl (Error ''No recent data available for ES'') \<and>
   priceCache (snd (getQuote ''ES'' header_only_server)) = priceCache header_only_server"
proof -
  from getQuote_cache_frame [of "''ES''" stale_offline "stale_offline\<lparr>clock_reads := 1\<rparr>"
      "''ES.c.0''"
      "Error ''DataBento API request failed after 3 attempts: TypeError: fetch failed''"
      "stale_offline\<lparr>clock_reads := 2, fetches := 3, events := [Fetched, Slept 1000, Fetched, Slept 2000, Fetched]\<rparr>"]
    stale_offline_request
  have a: "fst (getQuote ''ES'' stale_offline) =
     Inl (Error ''DataBento API request failed after 3 attempts: TypeError: fetch failed'')"
    "isl (fst (getQuote ''ES'' stale_offline)) \<longrightarrow>
       priceCache (snd (getQuote ''ES'' stale_offline)) = priceCache stale_offline"
    by blast+
  then have a': "priceCache (snd (getQuote ''ES'' stale_offline)) = priceCache stale_offline"
    by simp
  have ws: "newline \<notin> set ''ts_recv,ts_event,rtype,publisher_id,instrument_id'' \<and>
            (\<forall>c\<in>set [newline]. is_ws c)"
    by (simp add: is_ws_def)
  from getQuote_cache_frame [of "''ES''" header_only_server header_only_server "''ES.c.0''" _
      "header_only_server\<lparr>clock_reads := 1, fetches := 1, events := [Fetched]\<rparr>"
      "''ts_recv,ts_event,rtype,publisher_id,instrument_id''" "[newline]"]
    header_only_request ws
  have b: "fst (getQuote ''ES'' header_only_server) =
        Inl (Error ((if ''ts_recv,ts_event,rtype,publisher_id,instrument_id'' @ [newline] = []
                     then ''No quote data available for ''
                     else ''No recent data available for '') @ ''ES''))"
    "isl (fst (getQuote ''ES'' header_only_server)) \<longrightarrow>
       priceCache (snd (getQuote ''ES'' header_only_server)) = priceCache header_only_server"
    by blast+
  then have b': "fst (getQuote ''ES'' header_only_server) =
                   Inl (Error ''No recent data available for ES'')"
    "priceCache (snd (getQuote ''ES'' header_only_server)) = priceCache header_only_server"
    by simp_all
  from a(1) a' b' show ?thesis by blast
qed

lemma show_int_bid: "show_int 4500000000000 = ''4500000000000''"
  by (simp add: show_int_def show_nat.simps char_of_eq_iff)

lemma show_int_ask: "show_int 4502000000000 = ''4502000000000''"
  by (simp add: show_int_def show_nat.simps char_of_eq_iff)

text \<open>A negative scaled price, as a calendar spread can have, keeps its sign.\<close>

lemma decode_negative_example:
  "show_int (- 1000000000) = ''-1000000000'' \<and>
   js_div (parseFloat ''-1000000000'') 1000000000 = Num (- 1)"
proof -
  have s: "show_int (- 1000000000) = ''-1000000000''"
    by (simp add: show_int_def show_nat.simps char_of_eq_iff)
  from parseFloat_show_int [of "- 1000000000"] show ?thesis
    unfolding s by simp
qed

lemma quote_server_request:
  "cache_lookup ''ES'' quote_server = (None, quote_server) \<and>
   SYMBOL_MAP ''ES'' = Some ''ES.c.0'' \<and>
   makeRequest (snd (Date_now quote_server)) =
     (Inr quote_csv, quote_server\<lparr>clock_reads := 1, fetches := 1, events := [Fetched]\<rparr>) \<and>
   data_lines quote_csv \<noteq> []"
proof -
  have cl: "cache_lookup ''ES'' quote_server = (None, quote_server)"
    by (rule cache_lookup_absent) (simp add: quote_server_def)
  have mr: "makeRequest (snd (Date_now quote_server)) =
              (Inr quote_csv, quote_server\<lparr>clock_reads := 1, fetches := 1, events := [Fetched]\<rparr>)"
    by (subst makeRequest_first [of _ quote_csv])
       (simp_all add: Date_now_def quote_server_def attempt_result_def response_ok_def)
  have ne: "data_lines quote_csv \<noteq> []" by (simp add: quote_csv_lines)
  from cl SYMBOL_MAP_ES mr ne show ?thesis by blast
qed

text \<open>
  C6.  On a cache miss with a response that has a data line, \<open>getQuote\<close> returns a
  quote read from the last data line: the bid and the ask are the values of columns 13
  and 14 (\<open>bid_px_00\<close> and \<open>ask_px_00\<close> in the mbp-1 layout) divided by 1e9, and the
  price is their midpoint.  When the two columns hold the scaled integers \<open>b\<close> and \<open>a\<close>
  in decimal, of either sign, the bid is \<open>b / 1e9\<close>, the ask \<open>a / 1e9\<close> and the price
  \<open>(b / 1e9 + a / 1e9) / 2\<close>: the decoding of every scaled integer \<open>p\<close> is \<open>p / 1e9\<close>.
\<close>

theorem getQuote_decodes:
  "js_div (parseFloat (show_int p)) 1000000000 = Num (real_of_int p / 1000000000) \<and>
   (cache_lookup symb s = (None, s0) \<and> SYMBOL_MAP symb = Some d \<and>
   makeRequest (snd (Date_now s0)) = (Inr response, s2) \<and> data_lines response \<noteq> [] \<longrightarrow>
   (\<exists>q. fst (getQuote symb s) = Inr q \<and>
        bid q = js_div (parseFloat (to_string
                  (js_index (js_split comma (last (data_lines response))) 13))) 1000000000 \<and>
        ask q = js_div (parseFloat (to_string
                  (js_index (js_split comma (last (data_lines response))) 14))) 1000000000 \<and>
        price q = js_div (js_add (bid q) (ask q)) 2 \<and>
        (js_index (js_split comma (last (data_lines response))) 13 = Some (show_int b) \<and>
         js_index (js_split comma (last (data_lines response))) 14 = Some (show_int a) \<longrightarrow>
           bid q = Num (real_of_int b / 1000000000) \<and> ask q = Num (real_of_int a / 1000000000) \<and>
           price q = Num ((real_of_int b / 1000000000 + real_of_int a / 1000000000) / 2))))"
proof (rule conjI, simp add: parseFloat_show_int, intro impI, elim conjE)
  assume a: "cache_lookup symb s = (None, s0)" "SYMBOL_MAP symb = Some d"
    "makeRequest (snd (Date_now s0)) = (Inr response, s2)" "data_lines response \<noteq> []"
  let ?q = "parse_quote symb (last (data_lines response)) (clock s2 (clock_reads s2))"
  have r: "fst (getQuote symb s) = Inr ?q"
    using getQuote_miss [OF a] by simp
  have f: "bid ?q = js_div (parseFloat (to_string
                  (js_index (js_split comma (last (data_lines response))) 13))) 1000000000"
    "ask ?q = js_div (parseFloat (to_string
                  (js_index (js_split comma (last (data_lines response))) 14))) 1000000000"
    "price ?q = js_div (js_add (bid ?q) (ask ?q)) 2"
    by (simp_all add: parse_quote_def Let_def)
  have n: "bid ?q = Num (real_of_int b / 1000000000) \<and> ask ?q = Num (real_of_int a / 1000000000) \<and>
           price ?q = Num ((real_of_int b / 1000000000 + real_of_int a / 1000000000) / 2)"
    if "js_index (js_split comma (last (data_lines response))) 13 = Some (show_int b)"
       "js_index (js_split comma (last (data_lines response))) 14 = Some (show_int a)"
    unfolding f(3) unfolding f(1,2) that
    by (simp add: to_string_def parseFloat_show_int)
  from r f n show "\<exists>q. fst (getQuote symb s) = Inr q \<and>
        bid q = js_div (parseFloat (to_string
                  (js_index (js_split comma (last (data_lines response))) 13))) 1000000000 \<and>
        ask q = js_div (parseFloat (to_string
                  (js_index (js_split comma (last (data_lines response))) 14))) 1000000000 \<and>
        price q = js_div (js_add (bid q) (ask q)) 2 \<and>
        (js_index (js_split comma (last (data_lines response))) 13 = Some (show_int b) \<and>
         js_index (js_split comma (last (data_lines response))) 14 = Some (show_int a) \<longrightarrow>
           bid q = Num (real_of_int b / 1000000000) \<and> ask q = Num (real_of_int a / 1000000000) \<and>
           price q = Num ((real_of_int b / 1000000000 + real_of_int a / 1000000000) / 2))"
    by blast
qed

text \<open>
  A last row with \<open>bid_px_00 = 4500000000000\<close> and \<open>ask_px_00 = 4502000000000\<close> gives
  bid 4500, ask 4502 and price 4501.
\<close>

theorem getQuote_decodes_witness:
  "\<exists>q. fst (getQuote ''ES'' quote_server) = Inr q \<and>
       bid q = Num 4500 \<and> ask q = Num 4502 \<and> price q = Num 4501"
proof -
  have i: "js_index (js_split comma (last (data_lines quote_csv))) 13 = Some (show_int 4500000000000)"
    "js_index (js_split comma (last (data_lines quote_csv))) 14 = Some (show_int 4502000000000)"
    by (simp_all add: quote_csv_lines quote_fields js_index_eq show_int_bid show_int_ask)
  from getQuote_decodes [of _ "''ES''" quote_server quote_server "''ES.c.0''" quote_csv
        "quote_server\<lparr>clock_reads := 1, fetches := 1, events := [Fetched]\<rparr>" 4500000000000 4502000000000]
    quote_server_request i
  obtain q where "fst (getQuote ''ES'' quote_server) = Inr q"
    "bid q = Num (real_of_int 4500000000000 / 1000000000)"
    "ask q = Num (real_of_int 4502000000000 / 1000000000)"
    "price q = Num ((real_of_int 4500000000000 / 1000000000 + real_of_int 4502000000000 / 1000000000) / 2)"
    by blast
  then show ?thesis by simp
qed

text \<open>
  C2.  \<open>dataAge\<close> is computed once, when the quote is built on a cache miss, and is stored
  in the cache as a field of the quote; a read served from the cache returns the stored
  quote as it is.  Two calls for ES, 20 s apart, against the example server: the first
  builds the quote with \<open>dataAge\<close> 10000 ms (now \<open>-\<close> timestamp at that moment); the second
  makes no fetch and returns the same quote, with \<open>dataAge\<close> still 10000 ms, while the
  clock it reads minus the event timestamp of the quote is 30000 ms.  The age returned by
  a cache hit is not now \<open>-\<close> timestamp at the time of the read.
\<close>

theorem getQuote_dataAge_stale_on_hit:
  "fst (getQuote ''ES'' quote_server) = Inr es_quote \<and>
   fst (getQuote ''ES'' (snd (getQuote ''ES'' quote_server))) = Inr es_quote \<and>
   fetches (snd (getQuote ''ES'' (snd (getQuote ''ES'' quote_server)))) =
     fetches (snd (getQuote ''ES'' quote_server)) \<and>
   clock quote_server (clock_reads (snd (getQuote ''ES'' quote_server))) = 1609502430000 \<and>
   dataAge es_quote = Num 10000 \<and>
   js_sub (Num 1609502430000) (getTime (timestamp es_quote)) = Num 30000 \<and>
   dataAge es_quote \<noteq> js_sub (Num 1609502430000) (getTime (timestamp es_quote))"
proof -
  let ?s1 = "quote_server\<lparr>fetches := 1, events := [Fetched], clock_reads := 3,
        priceCache := [''ES'' \<mapsto> \<lparr>data = es_quote, cached_timestamp = 1609502410000\<rparr>]\<rparr>"
  have s1: "snd (getQuote ''ES'' quote_server) = ?s1"
    by (simp add: getQuote_quote_server)
  have f1: "fst (getQuote ''ES'' quote_server) = Inr es_quote"
    by (simp add: getQuote_quote_server)
  have "cache_lookup ''ES'' ?s1 = (Some (data \<lparr>data = es_quote, cached_timestamp = 1609502410000\<rparr>),
          ?s1\<lparr>clock_reads := Suc (clock_reads ?s1)\<rparr>)"
    by (rule cache_lookup_fresh) (simp_all add: quote_server_def)
  from getQuote_hit [OF this]
  have hit: "getQuote ''ES'' ?s1 = (Inr es_quote, ?s1\<lparr>clock_reads := Suc (clock_reads ?s1)\<rparr>)"
    by simp
  show ?thesis
    unfolding f1 s1 hit
    by (simp add: quote_server_def es_quote_def js_sub_def)
qed

section \<open>The bar pipeline: facts\<close>

lemma js_split_sep_Cons:
  "sep \<notin> set h \<Longrightarrow> js_split sep (h @ sep # r) = h # js_split sep r"
  by (induction h) auto

lemma js_split_join:
  "sep \<notin> set h \<Longrightarrow> \<forall>r\<in>set rows. sep \<notin> set r \<Longrightarrow>
   js_split sep (h @ concat (map (\<lambda>row. sep # row) rows)) = h # rows"
proof (induction rows arbitrary: h)
  case Nil
  then show ?case by (simp add: js_split_no_sep)
next
  case (Cons r rows)
  have "js_split sep (h @ sep # (r @ concat (map (\<lambda>row. sep # row) rows))) =
        h # js_split sep (r @ concat (map (\<lambda>row. sep # row) rows))"
    using Cons.prems(1) by (rule js_split_sep_Cons)
  also have "js_split sep (r @ concat (map (\<lambda>row. sep # row) rows)) = r # rows"
    using Cons.prems(2) by (intro Cons.IH) simp_all
  finally show ?case by simp
qed

lemma trim_nonblank: "\<not> is_ws c \<Longrightarrow> trim (c # cs) \<noteq> []"
  by (simp add: trim_def)

lemma hourly_lines: "data_lines hourly_csv = hourly_rows"
proof -
  have h: "newline \<notin> set ''ts_event,rtype,publisher_id,instrument_id,open,high,low,close,volume''"
    by simp
  have r: "\<forall>r\<in>set hourly_rows. newline \<notin> set r"
    by (simp add: hourly_rows_def)
  have t: "\<forall>r\<in>set hourly_rows. trim r \<noteq> []"
    by (simp add: hourly_rows_def trim_nonblank is_ws_def)
  show ?thesis
    unfolding data_lines_def hourly_csv_def Let_def js_split_join [OF h r]
    using t by (simp add: truthy_def)
qed

lemma hourly_count: "length hourly_rows = 12"
  by (simp add: hourly_rows_def)

lemma getHistoricalBars_result:
  "SYMBOL_MAP symb = Some d \<Longrightarrow>
   makeRequest (snd (Date_now (snd (Date_now s)))) = (Inr response, s3) \<Longrightarrow>
   data_lines response \<noteq> [] \<Longrightarrow>
   getHistoricalBars symb tf count s =
     (Inr (if tf = TF_H4 then aggregateToH4 (map parse_bar (data_lines response))
           else js_slice_from (- count) (map parse_bar (data_lines response))), s3)"
proof -
  assume a: "SYMBOL_MAP symb = Some d"
    "makeRequest (snd (Date_now (snd (Date_now s)))) = (Inr response, s3)"
    "data_lines response \<noteq> []"
  have "response \<noteq> []" using a(3) data_lines_empty by auto
  with a show ?thesis
    by (simp add: getHistoricalBars_def case_prod_beta Let_def)
qed

lemma js_slice_last:
  "0 < count \<Longrightarrow> js_slice_from (- count) xs = drop (length xs - nat count) xs"
  by (auto simp: js_slice_from_def Let_def max_def nat_diff_distrib' intro: arg_cong [where f = "\<lambda>k. drop k xs"])

lemma SYMBOL_MAP_NQ: "SYMBOL_MAP ''NQ'' = Some ''NQ.c.0''"
  by (simp add: SYMBOL_MAP_def)

lemma hourly_request:
  "makeRequest (snd (Date_now (snd (Date_now hourly_server)))) =
     (Inr hourly_csv, hourly_server\<lparr>clock_reads := 2, fetches := 1, events := [Fetched]\<rparr>)"
  by (subst makeRequest_first [of _ hourly_csv])
     (simp_all add: Date_now_def hourly_server_def attempt_result_def response_ok_def)

lemma bar_volume_parse_bar:
  "bar_volume (parse_bar line) = parseFloat (to_string (js_index (js_split comma line) 8))"
  by (simp add: parse_bar_def Let_def)

lemma bar_volume_aggregate_chunk:
  "bar_volume (aggregate_chunk chunk) = foldl js_add (Num 0) (map bar_volume chunk)"
  by (simp add: aggregate_chunk_def foldl_map)

lemma parseFloat_digits_val:
  "ds \<noteq> [] \<Longrightarrow> \<forall>c\<in>set ds. is_digit c \<Longrightarrow> digits_val ds = n \<Longrightarrow>
   parseFloat ds = Num (real_of_int n)"
  using parseFloat_digits [of ds] by simp

lemma hourly_volumes:
  "map bar_volume (map parse_bar hourly_rows) =
     [Num 1000, Num 1100, Num 1200, Num 1300, Num 1400, Num 1500, Num 1600, Num 1700,
      Num 1800, Num 1900, Num 2000, Num 2100]"
  by (simp add: hourly_rows_def bar_volume_parse_bar js_index_eq to_string_def
      parseFloat_digits is_digit_def digits_val_def digit_val_def)

text \<open>
  C1.  The claim asks for the last \<open>count\<close> bars for every timeframe.  Against twelve
  hourly bars, \<open>getHistoricalBars("NQ", "H4", 2)\<close> returns all three aggregated bars
  (volumes 4600, 6200, 7800) and not the last two: the H4 branch returns before the
  \<open>slice(-count)\<close> that the other timeframes go through, as the call for \<open>"1h"\<close> and 2
  shows (the last two hourly bars, volumes 2000 and 2100).
\<close>

theorem getHistoricalBars_H4_returns_all:
  "map_sum id (map bar_volume) (fst (getHistoricalBars ''NQ'' TF_H4 2 hourly_server)) =
     Inr [Num 4600, Num 6200, Num 7800] \<and>
   map_sum id (map bar_volume) (fst (getHistoricalBars ''NQ'' TF_1h 2 hourly_server)) =
     Inr [Num 2000, Num 2100]"
proof -
  have ne: "data_lines hourly_csv \<noteq> []" by (simp add: hourly_lines hourly_rows_def)
  note r = getHistoricalBars_result [OF SYMBOL_MAP_NQ hourly_request ne]
  have "map bar_volume (aggregateToH4 (map parse_bar hourly_rows)) =
          map (\<lambda>k. foldl js_add (Num 0)
                     (take 4 (drop (4 * k) (map bar_volume (map parse_bar hourly_rows)))))
            [0..<(12 + 3) div 4]"
    by (simp only: aggregateToH4_eq map_map comp_def bar_volume_aggregate_chunk
        take_map [symmetric] drop_map [symmetric] length_map hourly_count)
  also have "\<dots> = [Num 4600, Num 6200, Num 7800]"
    unfolding hourly_volumes by (simp add: upt_conv_Cons)
  finally have h4: "map bar_volume (aggregateToH4 (map parse_bar hourly_rows)) =
          [Num 4600, Num 6200, Num 7800]" .
  have "map bar_volume (js_slice_from (- 2) (map parse_bar hourly_rows)) =
          drop 10 (map bar_volume (map parse_bar hourly_rows))"
    by (simp add: js_slice_last hourly_count drop_map)
  also have "\<dots> = [Num 2000, Num 2100]"
    unfolding hourly_volumes by simp
  finally have h1: "map bar_volume (js_slice_from (- 2) (map parse_bar hourly_rows)) =
          [Num 2000, Num 2100]" .
  from h4 h1 show ?thesis by (simp add: r hourly_lines)
qed

end
